theory Spec2Isabelle
  imports Main "HOL-Library.FSet"
begin

section \<open>Text primitives of the scanner\<close>

text \<open>
  The scanner works on the text printed by \<^verbatim>\<open>ss -tlnp\<close>. Text is modelled as
  \<^typ>\<open>string\<close>, one \<^typ>\<open>char\<close> per code point, for the ASCII range: the functions
  below follow the Python string methods on ASCII text. Characters beyond ASCII (the
  whitespace U+0085 and U+00A0, letters with case, other digits) are outside the model.
\<close>

definition is_space :: "char \<Rightarrow> bool" where
  \<comment> \<open>the ASCII characters for which \<^verbatim>\<open>str.isspace\<close> holds\<close>
  "is_space c = (c \<in> set [CHR 0x09, CHR 0x0A, CHR 0x0B, CHR 0x0C, CHR 0x0D,
                             CHR 0x1C, CHR 0x1D, CHR 0x1E, CHR 0x1F, CHR 0x20])"

definition strip :: "string \<Rightarrow> string" where
  \<comment> \<open>\<^verbatim>\<open>s.strip()\<close>\<close>
  "strip s = rev (dropWhile is_space (rev (dropWhile is_space s)))"

fun split_on :: "char \<Rightarrow> string \<Rightarrow> string \<Rightarrow> string list" where
  \<comment> \<open>\<^verbatim>\<open>s.split(d)\<close> for a one-character separator; the second argument is the piece read so far\<close>
  "split_on d cur [] = [cur]"
| "split_on d cur (c # cs) =
     (if c = d then cur # split_on d [] cs else split_on d (cur @ [c]) cs)"

fun split_ws :: "string \<Rightarrow> string \<Rightarrow> string list" where
  \<comment> \<open>\<^verbatim>\<open>s.split()\<close>: pieces between runs of whitespace, none of them empty\<close>
  "split_ws cur [] = (if cur = [] then [] else [cur])"
| "split_ws cur (c # cs) =
     (if is_space c then (if cur = [] then split_ws [] cs else cur # split_ws [] cs)
      else split_ws (cur @ [c]) cs)"

fun contains :: "string \<Rightarrow> string \<Rightarrow> bool" where
  \<comment> \<open>\<^verbatim>\<open>sub in s\<close>\<close>
  "contains sub [] = (sub = [])"
| "contains sub (c # cs) = (take (length sub) (c # cs) = sub \<or> contains sub cs)"

definition startswith :: "string \<Rightarrow> string \<Rightarrow> bool" where
  \<comment> \<open>\<^verbatim>\<open>s.startswith(p)\<close>\<close>
  "startswith s p = (take (length p) s = p)"

definition rsplit_colon :: "string \<Rightarrow> string \<times> string" where
  \<comment> \<open>\<^verbatim>\<open>s.rsplit(':', 1)\<close> of a text that holds a colon: the text before the last colon and the text after it\<close>
  "rsplit_colon s =
     (rev (drop 1 (dropWhile (\<lambda>c. c \<noteq> CHR '':'') (rev s))),
      rev (takeWhile (\<lambda>c. c \<noteq> CHR '':'') (rev s)))"

definition lower_char :: "char \<Rightarrow> char" where
  "lower_char c =
     (case map_of (zip ''ABCDEFGHIJKLMNOPQRSTUVWXYZ'' ''abcdefghijklmnopqrstuvwxyz'') c of
        Some d \<Rightarrow> d
      | None \<Rightarrow> c)"

definition lower :: "string \<Rightarrow> string" where
  \<comment> \<open>\<^verbatim>\<open>s.lower()\<close>\<close>
  "lower s = map lower_char s"

subsection \<open>Reading and printing integers\<close>

definition is_digit :: "char \<Rightarrow> bool" where
  "is_digit c = (c \<in> set ''0123456789'')"

definition digit_val :: "char \<Rightarrow> nat" where
  "digit_val c = of_char c - 48"

fun digits_from :: "nat \<Rightarrow> string \<Rightarrow> nat option" where
  \<comment> \<open>the rest of a decimal numeral: digits, an underscore only between two digits\<close>
  "digits_from n [] = Some n"
| "digits_from n (c # cs) =
     (if is_digit c then digits_from (10 * n + digit_val c) cs
      else if c = CHR ''_'' then
        (case cs of
           [] \<Rightarrow> None
         | d # ds \<Rightarrow> if is_digit d then digits_from (10 * n + digit_val d) ds else None)
      else None)"

definition numeral_value :: "string \<Rightarrow> nat option" where
  "numeral_value s =
     (case s of
        [] \<Rightarrow> None
      | c # cs \<Rightarrow> if is_digit c then digits_from (digit_val c) cs else None)"

definition is_c_space :: "char \<Rightarrow> bool" where
  \<comment> \<open>the whitespace \<^verbatim>\<open>int\<close> skips around an ASCII numeral\<close>
  "is_c_space c = (c \<in> set [CHR 0x09, CHR 0x0A, CHR 0x0B, CHR 0x0C, CHR 0x0D, CHR 0x20])"

definition py_int :: "string \<Rightarrow> int option" where
  \<comment> \<open>\<^verbatim>\<open>int(s)\<close> on ASCII text: surrounding whitespace, a sign, decimal digits with single
      underscores between them; \<open>None\<close> is the \<^verbatim>\<open>ValueError\<close>. The interpreter's
      configurable cap on the digit count of a numeral is not modelled.\<close>
  "py_int s =
     (case rev (dropWhile is_c_space (rev (dropWhile is_c_space s))) of
        [] \<Rightarrow> None
      | c # cs \<Rightarrow>
          if c = CHR ''-'' then map_option (\<lambda>n. - int n) (numeral_value cs)
          else if c = CHR ''+'' then map_option int (numeral_value cs)
          else map_option int (numeral_value (c # cs)))"

definition digit_char :: "nat \<Rightarrow> char" where
  "digit_char d = ''0123456789'' ! d"

fun str_nat :: "nat \<Rightarrow> string" where
  "str_nat n =
     (if n < 10 then [digit_char n]
      else str_nat (n div 10) @ [digit_char (n mod 10)])"

definition str_int :: "int \<Rightarrow> string" where
  \<comment> \<open>\<^verbatim>\<open>str(i)\<close>, as an f-string prints an integer\<close>
  "str_int i = (if i < 0 then CHR ''-'' # str_nat (nat (- i)) else str_nat (nat i))"

section \<open>Service classification\<close>

definition common_ports :: "(int \<times> string) list" where
  "common_ports =
     [(22, ''SSH''), (80, ''HTTP''), (443, ''HTTPS''), (3306, ''MySQL''),
      (5432, ''PostgreSQL''), (6379, ''Redis''), (6432, ''PgBouncer''), (631, ''CUPS''),
      (53, ''DNS''), (3000, ''Node.js Dev''), (8000, ''HTTP Dev''), (8080, ''HTTP Alt''),
      (5000, ''Flask Dev''), (3001, ''React Dev''), (4000, ''GraphQL''), (5678, ''Debug''),
      (7080, ''Proxy/LB'')]"

definition identify_service :: "int \<Rightarrow> string \<Rightarrow> string" where
  "identify_service port line =
     (case map_of common_ports port of
        Some label \<Rightarrow> label
      | None \<Rightarrow>
          if contains ''sshd'' (lower line) then ''SSH''
          else if contains ''nginx'' (lower line) \<or> contains ''httpd'' (lower line)
                  \<or> contains ''apache'' (lower line) then ''HTTP''
          else if contains ''mysql'' (lower line) \<or> contains ''mariadb'' (lower line) then ''MySQL''
          else if contains ''postgres'' (lower line) then ''PostgreSQL''
          else if contains ''redis'' (lower line) then ''Redis''
          else if contains ''node'' (lower line) then ''Node.js''
          else if contains ''python'' (lower line) then ''Python''
          else if contains ''code'' (lower line) then ''VS Code''
          else if 2000 \<le> port \<and> port \<le> 2299 then ''SSH Alt''
          else if 3000 \<le> port \<and> port \<le> 3999 then ''Dev Server''
          else if 8000 \<le> port \<and> port \<le> 8999 then ''HTTP Alt''
          else if 5000 \<le> port \<and> port \<le> 5999 then ''Dev/API''
          else ''Unknown'')"

section \<open>Socket scanner\<close>

text \<open>
  The dictionaries of the source become records: a key of the dictionary is a field of
  the record. The key \<^verbatim>\<open>'instance'\<close> is the field \<open>instance_id\<close>.
  \<open>scan_instance_ports inst result\<close> is the body of the source function from the point
  where \<^verbatim>\<open>subprocess.run\<close> has returned \<open>result\<close> with both streams as text.
  \<open>scan_instance\<close>, after it, is the whole function: it adds the call itself, which
  decodes the two streams (\<^verbatim>\<open>text=True\<close>) and can fail there.
\<close>

record port_info =
  port :: int
  protocol :: string
  address :: string
  service_type :: string
  raw_line :: string

record instance_info =
  instance_id :: string
  accessible :: bool
  ports :: "port_info list"
  services :: "(int \<times> string set) list"
  error :: "string option"

record completed_process =
  returncode :: int
  stdout :: string
  stderr :: string

text \<open>
  A Python dictionary keeps its keys in insertion order, so it is an association list
  with one entry per key. \<open>dict_set\<close> is \<^verbatim>\<open>d[k] = v\<close>, \<open>dict_append\<close> is
  \<^verbatim>\<open>d[k].append(x)\<close>, and \<open>defaultdict_append\<close> is the same statement on a
  \<^verbatim>\<open>defaultdict(list)\<close>, which creates a missing key. The allocator appends to
  \<^verbatim>\<open>port_assignments[instance]\<close> only after it has stored that key, so the
  \<^verbatim>\<open>KeyError\<close> of a missing key cannot arise there (lemmas \<open>dict_set_key\<close> and
  \<open>ports_loop_keys\<close>); \<open>dict_append\<close> leaves a dictionary without the key as it is.
\<close>

fun dict_set :: "('k \<times> 'v) list \<Rightarrow> 'k \<Rightarrow> 'v \<Rightarrow> ('k \<times> 'v) list" where
  "dict_set [] k v = [(k, v)]"
| "dict_set ((k', v') # kvs) k v =
     (if k' = k then (k', v) # kvs else (k', v') # dict_set kvs k v)"

fun dict_append :: "('k \<times> 'v list) list \<Rightarrow> 'k \<Rightarrow> 'v \<Rightarrow> ('k \<times> 'v list) list" where
  "dict_append [] k x = []"
| "dict_append ((k', xs) # kvs) k x =
     (if k' = k then (k', xs @ [x]) # kvs else (k', xs) # dict_append kvs k x)"

fun defaultdict_append :: "('k \<times> 'v list) list \<Rightarrow> 'k \<Rightarrow> 'v \<Rightarrow> ('k \<times> 'v list) list" where
  "defaultdict_append [] k x = [(k, [x])]"
| "defaultdict_append ((k', xs) # kvs) k x =
     (if k' = k then (k', xs @ [x]) # kvs else (k', xs) # defaultdict_append kvs k x)"

definition scan_line :: "string \<Rightarrow> port_info option" where
  \<comment> \<open>the body of the loop over the rows; \<open>None\<close> is a \<^verbatim>\<open>continue\<close>\<close>
  "scan_line line =
     (if \<not> contains ''LISTEN'' line then None
      else
        let parts = split_ws [] line in
        if length parts < 4 then None
        else
          let local_addr = parts ! 3 in
          if CHR '':'' \<notin> set local_addr then None
          else
            let (addr, port_str) = rsplit_colon local_addr in
            (case py_int port_str of
               None \<Rightarrow> None
             | Some p \<Rightarrow>
                 if startswith addr ''127.0.0'' \<or> startswith addr ''::1'' then None
                 else Some \<lparr>port = p, protocol = ''tcp'', address = addr,
                             service_type = identify_service p line,
                             raw_line = strip line\<rparr>))"

fun scan_loop ::
  "string list \<Rightarrow> port_info list \<Rightarrow> (int \<times> string list) list \<Rightarrow>
     port_info list \<times> (int \<times> string list) list" where
  \<comment> \<open>the loop over the rows, with the list \<^verbatim>\<open>instance_info['ports']\<close> and \<^verbatim>\<open>port_services\<close>\<close>
  "scan_loop [] ps svc = (ps, svc)"
| "scan_loop (line # lines) ps svc =
     (case scan_line line of
        None \<Rightarrow> scan_loop lines ps svc
      | Some pinfo \<Rightarrow>
          scan_loop lines (ps @ [pinfo])
            (defaultdict_append svc (port pinfo) (service_type pinfo)))"

fun unique_loop :: "port_info list \<Rightarrow> (int \<times> port_info) list \<Rightarrow> (int \<times> port_info) list" where
  \<comment> \<open>the loop that fills \<^verbatim>\<open>unique_ports\<close>\<close>
  "unique_loop [] unique_ports = unique_ports"
| "unique_loop (pinfo # ps) unique_ports =
     (if port pinfo \<notin> set (map fst unique_ports)
      then unique_loop ps (unique_ports @ [(port pinfo, pinfo)])
      else unique_loop ps unique_ports)"

definition listed_rows :: "completed_process \<Rightarrow> string list" where
  \<comment> \<open>\<^verbatim>\<open>result.stdout.strip().split('\n')[1:]\<close>\<close>
  "listed_rows result = drop 1 (split_on (CHR 0x0A) [] (strip (stdout result)))"

definition scan_instance_ports :: "string \<Rightarrow> completed_process \<Rightarrow> instance_info" where
  "scan_instance_ports inst result =
     (if returncode result \<noteq> 0 then
        \<lparr>instance_id = inst, accessible = False, ports = [], services = [],
         error = Some (''Failed to access (exit '' @ str_int (returncode result) @ ''): ''
                         @ strip (stderr result))\<rparr>
      else
        let (ps, svc) = scan_loop (listed_rows result) [] [] in
        \<lparr>instance_id = inst, accessible = True,
         ports = map snd (unique_loop ps []),
         services = map (\<lambda>(p, labels). (p, set labels)) svc,
         error = None\<rparr>)"

subsection \<open>The call of the socket lister\<close>

text \<open>
  \<^verbatim>\<open>subprocess.run(..., capture_output=True, text=True, shell=True)\<close> decodes what the
  process wrote on each stream in the locale's encoding, strictly. \<open>process_output\<close> is
  what the process left: its exit status and, for each stream, the decoded text, or
  \<open>None\<close> when the bytes do not decode. On POSIX the decoding is done in the calling
  thread and the \<^verbatim>\<open>UnicodeDecodeError\<close> leaves \<^verbatim>\<open>subprocess.run\<close>. On Windows
  each stream is read by a thread of its own; a thread that fails to decode leaves its
  buffer empty, and the attribute of the returned object is \<^verbatim>\<open>None\<close>. The source
  guards none of this: \<^verbatim>\<open>result.stderr.strip()\<close> and \<^verbatim>\<open>result.stdout.strip()\<close>
  on \<^verbatim>\<open>None\<close> raise \<^verbatim>\<open>AttributeError\<close>.
\<close>

datatype py_error = UnicodeDecodeError | AttributeError

datatype platform = Posix | Windows

record process_output =
  exit_status :: int
  out_text :: "string option"
  err_text :: "string option"

definition subprocess_run ::
  "platform \<Rightarrow> process_output \<Rightarrow> py_error + int \<times> string option \<times> string option" where
  \<comment> \<open>the returned object's \<^verbatim>\<open>returncode\<close>, \<^verbatim>\<open>stdout\<close> and \<^verbatim>\<open>stderr\<close>, or the exception\<close>
  "subprocess_run pf out =
     (if pf = Posix \<and> (out_text out = None \<or> err_text out = None)
      then Inl UnicodeDecodeError
      else Inr (exit_status out, out_text out, err_text out))"

definition scan_instance :: "platform \<Rightarrow> string \<Rightarrow> process_output \<Rightarrow> py_error + instance_info" where
  \<comment> \<open>the whole of the source's \<^verbatim>\<open>scan_instance_ports(instance)\<close>. The branch for a
      status other than zero reads \<^verbatim>\<open>stderr\<close> only and the other branch \<^verbatim>\<open>stdout\<close> only;
      the stream a branch does not read is passed on as the empty text when it is
      \<^verbatim>\<open>None\<close>.\<close>
  "scan_instance pf inst out =
     (case subprocess_run pf out of
        Inl e \<Rightarrow> Inl e
      | Inr (rc, so, se) \<Rightarrow>
          if rc \<noteq> 0 then
            (case se of
               None \<Rightarrow> Inl AttributeError
             | Some err \<Rightarrow>
                 Inr (scan_instance_ports inst
                        \<lparr>returncode = rc, stdout = (case so of None \<Rightarrow> [] | Some t \<Rightarrow> t),
                         stderr = err\<rparr>))
          else
            (case so of
               None \<Rightarrow> Inl AttributeError
             | Some t \<Rightarrow>
                 Inr (scan_instance_ports inst
                        \<lparr>returncode = rc, stdout = t,
                         stderr = (case se of None \<Rightarrow> [] | Some err \<Rightarrow> err)\<rparr>)))"

section \<open>External port allocator\<close>

record external_mapping =
  m_name :: string
  m_distro :: string
  m_protocol :: string
  m_port :: int
  m_internal_port :: int
  m_firewall :: string
  m_listen_address :: string
  m_service_type :: string
  m_original_address :: string

record claimant =
  c_instance :: string
  c_internal_port :: int
  c_service_type :: string

record alloc_state =
  port_assignments :: "(string \<times> external_mapping list) list"
  used_external_ports :: "int fset"
  conflicts :: "(int \<times> claimant list) list"
  ssh_external :: int
  http_external :: int
  https_external :: int
  mysql_external :: int
  postgres_external :: int
  redis_external :: int
  dev_external :: int

function next_free :: "int fset \<Rightarrow> int \<Rightarrow> int" where
  \<comment> \<open>\<^verbatim>\<open>while external_port in used_external_ports: external_port += 1\<close>\<close>
  "next_free used p = (if p |\<in>| used then next_free used (p + 1) else p)"
  by pat_completeness auto
termination
proof (relation "measure (\<lambda>(used, p). card {x. x |\<in>| used \<and> p \<le> x})")
  show "wf (measure (\<lambda>(used, p). card {x. x |\<in>| used \<and> p \<le> x}))"
    by simp
next
  fix used :: "int fset" and p :: int
  assume mem: "p |\<in>| used"
  have fin: "finite {x. x |\<in>| used \<and> p \<le> x}"
    by (rule finite_subset [of _ "fset used"]) auto
  have "p \<in> {x. x |\<in>| used \<and> p \<le> x}" and "p \<notin> {x. x |\<in>| used \<and> p + 1 \<le> x}"
    using mem by simp_all
  moreover have "{x. x |\<in>| used \<and> p + 1 \<le> x} \<subseteq> {x. x |\<in>| used \<and> p \<le> x}"
    by auto
  ultimately have "{x. x |\<in>| used \<and> p + 1 \<le> x} \<subset> {x. x |\<in>| used \<and> p \<le> x}"
    by blast
  then have "card {x. x |\<in>| used \<and> p + 1 \<le> x} < card {x. x |\<in>| used \<and> p \<le> x}"
    using fin by (rule psubset_card_mono [rotated])
  then show "((used, p + 1), (used, p)) \<in> measure (\<lambda>(used, p). card {x. x |\<in>| used \<and> p \<le> x})"
    by simp
qed

definition choose_external_port :: "alloc_state \<Rightarrow> port_info \<Rightarrow> int \<times> alloc_state" where
  \<comment> \<open>the chain of \<^verbatim>\<open>if\<close>/\<^verbatim>\<open>elif\<close> that picks \<^verbatim>\<open>external_port\<close> and bumps the counter it used\<close>
  "choose_external_port st pinfo =
     (let internal_port = port pinfo; label = service_type pinfo in
      if label = ''SSH'' \<or> internal_port = 22 then
        (ssh_external st, st\<lparr>ssh_external := ssh_external st + 1\<rparr>)
      else if label \<in> set [''HTTP'', ''HTTP Alt''] \<and> internal_port = 80 then
        (http_external st, st\<lparr>http_external := http_external st + 1\<rparr>)
      else if label = ''HTTPS'' \<and> internal_port = 443 then
        (https_external st, st\<lparr>https_external := https_external st + 1\<rparr>)
      else if label = ''MySQL'' \<and> internal_port = 3306 then
        (mysql_external st, st\<lparr>mysql_external := mysql_external st + 1\<rparr>)
      else if label = ''PostgreSQL'' \<and> internal_port = 5432 then
        (postgres_external st, st\<lparr>postgres_external := postgres_external st + 1\<rparr>)
      else if label = ''Redis'' \<and> internal_port = 6379 then
        (redis_external st, st\<lparr>redis_external := redis_external st + 1\<rparr>)
      else if label \<in> set [''Dev Server'', ''Node.js Dev'', ''Flask Dev''] then
        (dev_external st, st\<lparr>dev_external := dev_external st + 1\<rparr>)
      else
        (next_free (used_external_ports st) (9000 + internal_port mod 1000), st))"

definition new_mapping :: "string \<Rightarrow> port_info \<Rightarrow> int \<Rightarrow> external_mapping" where
  "new_mapping inst pinfo external_port =
     \<lparr>m_name = inst @ '' '' @ service_type pinfo,
      m_distro = inst,
      m_protocol = ''tcp'',
      m_port = external_port,
      m_internal_port = port pinfo,
      m_firewall = ''local'',
      m_listen_address = ''0.0.0.0'',
      m_service_type = service_type pinfo,
      m_original_address = address pinfo\<rparr>"

definition assign_port :: "string \<Rightarrow> alloc_state \<Rightarrow> port_info \<Rightarrow> alloc_state" where
  \<comment> \<open>the body of the loop over the port records of one instance\<close>
  "assign_port inst st pinfo =
     (let (external_port, st1) = choose_external_port st pinfo;
          st2 = (if external_port |\<in>| used_external_ports st1
                 then st1\<lparr>conflicts :=
                        defaultdict_append (conflicts st1) external_port
                          \<lparr>c_instance = inst, c_internal_port = port pinfo,
                           c_service_type = service_type pinfo\<rparr>\<rparr>
                 else st1\<lparr>used_external_ports :=
                        finsert external_port (used_external_ports st1)\<rparr>)
      in st2\<lparr>port_assignments :=
               dict_append (port_assignments st2) inst (new_mapping inst pinfo external_port)\<rparr>)"

fun ports_loop :: "string \<Rightarrow> port_info list \<Rightarrow> alloc_state \<Rightarrow> alloc_state" where
  "ports_loop inst [] st = st"
| "ports_loop inst (pinfo # ps) st = ports_loop inst ps (assign_port inst st pinfo)"

fun instances_loop :: "instance_info list \<Rightarrow> alloc_state \<Rightarrow> alloc_state" where
  "instances_loop [] st = st"
| "instances_loop (info # infos) st =
     (if \<not> accessible info then instances_loop infos st
      else
        instances_loop infos
          (ports_loop (instance_id info) (ports info)
             (st\<lparr>port_assignments := dict_set (port_assignments st) (instance_id info) []\<rparr>)))"

definition initial_state :: alloc_state where
  "initial_state =
     \<lparr>port_assignments = [], used_external_ports = {||}, conflicts = [],
      ssh_external = 2201, http_external = 8081, https_external = 8443,
      mysql_external = 3307, postgres_external = 5433, redis_external = 6380,
      dev_external = 9001\<rparr>"

definition assign_external_ports ::
  "instance_info list \<Rightarrow> (string \<times> external_mapping list) list \<times> (int \<times> claimant list) list" where
  "assign_external_ports all_instances =
     (let st = instances_loop all_instances initial_state
      in (port_assignments st, conflicts st))"

section \<open>Configuration document\<close>

record port_config =
  pc_port :: int
  pc_internal_port :: "int option"
  pc_firewall :: string
  pc_comment :: string

record instance_config =
  ic_name :: string
  ic_comment :: string
  ic_ports :: "port_config list"

record config =
  check_interval_seconds :: int
  instances :: "instance_config list"

definition port_config_of :: "external_mapping \<Rightarrow> port_config" where
  \<comment> \<open>one entry of \<^verbatim>\<open>ports_for_instance\<close>; a deleted key is \<open>None\<close>\<close>
  "port_config_of m =
     (let port_config =
            \<lparr>pc_port = m_port m, pc_internal_port = Some (m_internal_port m),
             pc_firewall = m_firewall m,
             pc_comment = m_service_type m @ '' service (external '' @ str_int (m_port m)
                            @ '' -> internal '' @ str_int (m_internal_port m) @ '')''\<rparr>
      in if m_port m = m_internal_port m
         then port_config\<lparr>pc_internal_port := None,
                pc_comment := m_service_type m @ '' service (same port internally)''\<rparr>
         else port_config)"

definition build_config :: "(string \<times> external_mapping list) list \<Rightarrow> config" where
  \<comment> \<open>the loop of \<^verbatim>\<open>main\<close> over \<^verbatim>\<open>port_assignments.items()\<close>\<close>
  "build_config assignments =
     \<lparr>check_interval_seconds = 5,
      instances =
        map (\<lambda>(inst, mappings).
               \<lparr>ic_name = inst,
                ic_comment = ''Auto-discovered WSL2 instance with ''
                               @ str_int (int (length mappings)) @ '' services'',
                ic_ports = map port_config_of mappings\<rparr>)
            assignments\<rparr>"

definition generated_config :: "instance_info list \<Rightarrow> config" where
  \<comment> \<open>what \<^verbatim>\<open>main\<close> writes for the scan results it collected\<close>
  "generated_config all_instances = build_config (fst (assign_external_ports all_instances))"

section \<open>Notions of the specification\<close>

text \<open>
  The specification describes the classifier as layers and the allocator as a list of
  rules. The definitions of this section follow the specification's words; the theorems
  below relate them to the functions above, which follow the source.
\<close>

definition spec_text_hint :: "string \<Rightarrow> string option" where
  \<comment> \<open>layer 2: the first process-name token found in the lower-cased row\<close>
  "spec_text_hint line =
     map_option snd
       (find (\<lambda>(tokens, label). \<exists>t \<in> set tokens. contains t (lower line))
          [([''sshd''], ''SSH''),
           ([''nginx'', ''httpd'', ''apache''], ''HTTP''),
           ([''mysql'', ''mariadb''], ''MySQL''),
           ([''postgres''], ''PostgreSQL''),
           ([''redis''], ''Redis''),
           ([''node''], ''Node.js''),
           ([''python''], ''Python''),
           ([''code''], ''VS Code'')])"

definition spec_range_fallback :: "int \<Rightarrow> string" where
  \<comment> \<open>layers 3 and 4: the first port range that holds the port, else the default\<close>
  "spec_range_fallback p =
     (case find (\<lambda>(lo, hi, label). lo \<le> p \<and> p \<le> hi)
             [(2000, 2299, ''SSH Alt''), (3000, 3999, ''Dev Server''),
              (8000, 8999, ''HTTP Alt''), (5000, 5999, ''Dev/API'')] of
        Some (lo, hi, label) \<Rightarrow> label
      | None \<Rightarrow> ''Unknown'')"

definition retained_records :: "completed_process \<Rightarrow> port_info list" where
  \<comment> \<open>the record of every row the scanner retains, in scan order, before deduplication\<close>
  "retained_records result = List.map_filter scan_line (listed_rows result)"

definition fallback_rule :: "int \<Rightarrow> string \<Rightarrow> bool" where
  \<comment> \<open>none of the allocator's rules 1 to 7 matches the internal port and the label\<close>
  "fallback_rule internal_port label \<longleftrightarrow>
     \<not> (label = ''SSH'' \<or> internal_port = 22)
     \<and> \<not> ((label = ''HTTP'' \<or> label = ''HTTP Alt'') \<and> internal_port = 80)
     \<and> \<not> (label = ''HTTPS'' \<and> internal_port = 443)
     \<and> \<not> (label = ''MySQL'' \<and> internal_port = 3306)
     \<and> \<not> (label = ''PostgreSQL'' \<and> internal_port = 5432)
     \<and> \<not> (label = ''Redis'' \<and> internal_port = 6379)
     \<and> \<not> (label = ''Dev Server'' \<or> label = ''Node.js Dev'' \<or> label = ''Flask Dev'')"

definition record_source :: "string \<Rightarrow> port_info \<Rightarrow> string \<times> int \<times> string \<times> string" where
  \<comment> \<open>what identifies a port record of an instance: instance, port, label, bound address\<close>
  "record_source inst r = (inst, port r, service_type r, address r)"

definition mapping_source :: "external_mapping \<Rightarrow> string \<times> int \<times> string \<times> string" where
  \<comment> \<open>the port record a mapping was made for\<close>
  "mapping_source m = (m_distro m, m_internal_port m, m_service_type m, m_original_address m)"

definition plan_sources ::
  "(string \<times> external_mapping list) list \<Rightarrow> (string \<times> (string \<times> int \<times> string \<times> string) list) list" where
  "plan_sources plan = map (\<lambda>(inst, ms). (inst, map mapping_source ms)) plan"

definition no_fallback_claimant :: "(int \<times> claimant list) list \<Rightarrow> bool" where
  \<comment> \<open>no claimant of any conflict entry is a record that the fallback rule assigns\<close>
  "no_fallback_claimant cf \<longleftrightarrow>
     (\<forall>(e, cs) \<in> set cf. \<forall>c \<in> set cs. \<not> fallback_rule (c_internal_port c) (c_service_type c))"

definition mapping_fallback :: "external_mapping \<Rightarrow> bool" where
  \<comment> \<open>the mapping was made for a record that the fallback rule assigns\<close>
  "mapping_fallback m = fallback_rule (m_internal_port m) (m_service_type m)"

section \<open>Auxiliary functions of the proofs\<close>

text \<open>
  The allocator appends every mapping to a dictionary entry. The two functions below
  collect what the loops append, in the order of the appends: the mappings of one
  instance, and the entries of all instances.
\<close>

fun emitted_mappings :: "string \<Rightarrow> port_info list \<Rightarrow> alloc_state \<Rightarrow> external_mapping list" where
  "emitted_mappings inst [] st = []"
| "emitted_mappings inst (pinfo # ps) st =
     new_mapping inst pinfo (fst (choose_external_port st pinfo))
       # emitted_mappings inst ps (assign_port inst st pinfo)"

fun emitted_plan :: "instance_info list \<Rightarrow> alloc_state \<Rightarrow> (string \<times> external_mapping list) list" where
  "emitted_plan [] st = []"
| "emitted_plan (info # infos) st =
     (if \<not> accessible info then emitted_plan infos st
      else
        (instance_id info,
         emitted_mappings (instance_id info) (ports info)
           (st\<lparr>port_assignments := dict_set (port_assignments st) (instance_id info) []\<rparr>))
        # emitted_plan infos
            (ports_loop (instance_id info) (ports info)
               (st\<lparr>port_assignments := dict_set (port_assignments st) (instance_id info) []\<rparr>)))"

section \<open>The classifier's precedence\<close>

lemma spec_text_hint_chain:
  "spec_text_hint line =
     (if contains ''sshd'' (lower line) then Some ''SSH''
      else if contains ''nginx'' (lower line) \<or> contains ''httpd'' (lower line)
              \<or> contains ''apache'' (lower line) then Some ''HTTP''
      else if contains ''mysql'' (lower line) \<or> contains ''mariadb'' (lower line) then Some ''MySQL''
      else if contains ''postgres'' (lower line) then Some ''PostgreSQL''
      else if contains ''redis'' (lower line) then Some ''Redis''
      else if contains ''node'' (lower line) then Some ''Node.js''
      else if contains ''python'' (lower line) then Some ''Python''
      else if contains ''code'' (lower line) then Some ''VS Code''
      else None)"
  unfolding spec_text_hint_def by simp

lemma spec_range_fallback_chain:
  "spec_range_fallback p =
     (if 2000 \<le> p \<and> p \<le> 2299 then ''SSH Alt''
      else if 3000 \<le> p \<and> p \<le> 3999 then ''Dev Server''
      else if 8000 \<le> p \<and> p \<le> 8999 then ''HTTP Alt''
      else if 5000 \<le> p \<and> p \<le> 5999 then ''Dev/API''
      else ''Unknown'')"
  unfolding spec_range_fallback_def by simp

lemma identify_service_layers:
  "identify_service p line =
     (case map_of common_ports p of
        Some label \<Rightarrow> label
      | None \<Rightarrow>
          (case spec_text_hint line of
             Some label \<Rightarrow> label
           | None \<Rightarrow> spec_range_fallback p))"
proof -
  have "(case spec_text_hint line of Some label \<Rightarrow> label | None \<Rightarrow> r) =
     (if contains ''sshd'' (lower line) then ''SSH''
      else if contains ''nginx'' (lower line) \<or> contains ''httpd'' (lower line)
              \<or> contains ''apache'' (lower line) then ''HTTP''
      else if contains ''mysql'' (lower line) \<or> contains ''mariadb'' (lower line) then ''MySQL''
      else if contains ''postgres'' (lower line) then ''PostgreSQL''
      else if contains ''redis'' (lower line) then ''Redis''
      else if contains ''node'' (lower line) then ''Node.js''
      else if contains ''python'' (lower line) then ''Python''
      else if contains ''code'' (lower line) then ''VS Code''
      else r)" for r
    unfolding spec_text_hint_chain
    by (simp only: if_distrib [of "case_option r (\<lambda>label. label)"] option.case)
  then show ?thesis
    unfolding identify_service_def spec_range_fallback_chain by (simp only:)
qed

lemma identify_service_table:
  "map_of common_ports p = Some label \<Longrightarrow> identify_service p line = label"
  by (simp add: identify_service_layers)

lemma identify_service_hint:
  "map_of common_ports p = None \<Longrightarrow> spec_text_hint line = Some label \<Longrightarrow>
     identify_service p line = label"
  by (simp add: identify_service_layers)

lemma identify_service_range:
  "map_of common_ports p = None \<Longrightarrow> spec_text_hint line = None \<Longrightarrow>
     identify_service p line = spec_range_fallback p"
  by (simp add: identify_service_layers)

text \<open>
  Claim C4. The classifier applies its layers in strict precedence, the first match
  winning: a port of the well-known table gets the table's label whatever the row text
  says; a port outside the table gets the label of the first process-name token found in
  the row, whatever range the port lies in; only a row without any token is labelled by
  the port ranges. In particular port 22 is "SSH" for every row text, also one that
  names nginx; port 3500 with an empty row is "Dev Server", and port 9500 with an empty
  row is "Unknown".
\<close>

theorem classify_precedence:
  "(\<forall>label. map_of common_ports p = Some label \<longrightarrow> identify_service p line = label)
   \<and> (\<forall>label. map_of common_ports p = None \<and> spec_text_hint line = Some label
          \<longrightarrow> identify_service p line = label)
   \<and> (map_of common_ports p = None \<and> spec_text_hint line = None
          \<longrightarrow> identify_service p line = spec_range_fallback p)
   \<and> identify_service 22 line = ''SSH''
   \<and> identify_service 3500 '''' = ''Dev Server''
   \<and> identify_service 9500 '''' = ''Unknown''"
proof -
  have "map_of common_ports 22 = Some ''SSH''"
    by (simp add: common_ports_def)
  then have ssh: "identify_service 22 line = ''SSH''"
    by (rule identify_service_table)
  have "identify_service 3500 '''' = ''Dev Server''" and "identify_service 9500 '''' = ''Unknown''"
    by (simp_all add: identify_service_def common_ports_def lower_def)
  with ssh show ?thesis
    using identify_service_table identify_service_hint identify_service_range by blast
qed

theorem classify_precedence_witness:
  "identify_service 22 ''users:((nginx))'' = ''SSH''
   \<and> identify_service 9500 ''users:((nginx))'' = ''HTTP''
   \<and> identify_service 2100 ''users:((nginx))'' = ''HTTP''
   \<and> identify_service 2100 ''users:((dnsmasq))'' = ''SSH Alt''"
proof -
  have t: "map_of common_ports 22 = Some ''SSH''"
    and n1: "map_of common_ports 9500 = None" and n2: "map_of common_ports 2100 = None"
    by (simp_all add: common_ports_def)
  have h: "spec_text_hint ''users:((nginx))'' = Some ''HTTP''"
    and g: "spec_text_hint ''users:((dnsmasq))'' = None"
    by (simp_all add: spec_text_hint_def lower_def lower_char_def)
  have r: "spec_range_fallback 2100 = ''SSH Alt''"
    by (simp add: spec_range_fallback_def)
  show ?thesis
    using classify_precedence [of 22 "''users:((nginx))''"]
      classify_precedence [of 9500 "''users:((nginx))''"]
      classify_precedence [of 2100 "''users:((nginx))''"]
      classify_precedence [of 2100 "''users:((dnsmasq))''"]
      t n1 n2 h g r
    by simp
qed

section \<open>The scanner\<close>

text \<open>
  The port text is a piece of a whitespace split, so it holds no whitespace: the
  whitespace that \<open>py_int\<close> skips never occurs in what the scanner passes to it.
\<close>

lemma split_ws_no_space:
  "w \<in> set (split_ws cur s) \<Longrightarrow> c \<in> set w \<Longrightarrow> c \<in> set cur \<or> \<not> is_space c"
proof (induction s arbitrary: cur)
  case Nil
  then show ?case
    by (simp split: if_splits)
next
  case (Cons a s)
  show ?case
  proof (cases "is_space a")
    case True
    with Cons.prems have "w = cur \<or> w \<in> set (split_ws [] s)"
      by (auto split: if_splits)
    then show ?thesis
      using Cons.IH [of "[]"] Cons.prems(2) by auto
  next
    case False
    with Cons.prems have "w \<in> set (split_ws (cur @ [a]) s)"
      by simp
    from Cons.IH [OF this Cons.prems(2)] False show ?thesis
      by auto
  qed
qed

lemma port_text_no_space:
  assumes "4 \<le> length (split_ws [] line)"
    and "c \<in> set (snd (rsplit_colon (split_ws [] line ! 3)))"
  shows "\<not> is_space c"
proof -
  from assms(2) have "c \<in> set (split_ws [] line ! 3)"
    by (auto simp: rsplit_colon_def dest: set_takeWhileD)
  moreover from assms(1) have "split_ws [] line ! 3 \<in> set (split_ws [] line)"
    by simp
  ultimately show ?thesis
    using split_ws_no_space [of "split_ws [] line ! 3" "[]" line c] by simp
qed

lemma scan_loop_records:
  "fst (scan_loop rows ps svc) = ps @ List.map_filter scan_line rows"
  by (induction rows arbitrary: ps svc) (simp_all add: map_filter_simps split: option.split)

lemma unique_loop_keys:
  "\<forall>(k, v) \<in> set u. port v = k \<Longrightarrow> p \<notin> set (map fst u) \<Longrightarrow>
     filter (\<lambda>r. port r = p) (map snd u) = []"
  by (induction u) auto

lemma unique_loop_filter:
  "\<forall>(k, v) \<in> set u. port v = k \<Longrightarrow>
     filter (\<lambda>r. port r = p) (map snd (unique_loop ps u)) =
       (if p \<in> set (map fst u) then filter (\<lambda>r. port r = p) (map snd u)
        else take 1 (filter (\<lambda>r. port r = p) ps))"
proof (induction ps arbitrary: u)
  case Nil
  then show ?case
    by (simp add: unique_loop_keys)
next
  case (Cons x ps)
  show ?case
  proof (cases "port x \<in> set (map fst u)")
    case True
    with Cons show ?thesis
      by auto
  next
    case False
    have inv: "\<forall>(k, v) \<in> set (u @ [(port x, x)]). port v = k"
      using Cons.prems by auto
    have empty: "p \<notin> set (map fst u) \<Longrightarrow> filter (\<lambda>r. port r = p) (map snd u) = []"
      using Cons.prems by (rule unique_loop_keys)
    show ?thesis
      using False Cons.IH [OF inv] empty by auto
  qed
qed

lemma unique_loop_subset:
  "set (map snd (unique_loop ps u)) \<subseteq> set (map snd u) \<union> set ps"
proof (induction ps arbitrary: u)
  case Nil
  show ?case by simp
next
  case (Cons x ps)
  have "set (map snd (unique_loop ps (u @ [(port x, x)]))) \<subseteq> set (map snd u) \<union> set (x # ps)"
    using Cons.IH [of "u @ [(port x, x)]"] by auto
  moreover have "set (map snd (unique_loop ps u)) \<subseteq> set (map snd u) \<union> set (x # ps)"
    using Cons.IH [of u] by auto
  ultimately show ?case
    by (simp del: set_map)
qed

lemma scan_ports_unique_loop:
  "returncode result = 0 \<Longrightarrow>
     ports (scan_instance_ports inst result) = map snd (unique_loop (retained_records result) [])"
  using scan_loop_records [of "listed_rows result" "[]" "[]"]
  by (simp add: scan_instance_ports_def retained_records_def split_beta)

lemma scan_ports_failed: "returncode result \<noteq> 0 \<Longrightarrow> ports (scan_instance_ports inst result) = []"
  by (simp add: scan_instance_ports_def)

lemma scan_ports_retained:
  "r \<in> set (ports (scan_instance_ports inst result)) \<Longrightarrow> r \<in> set (retained_records result)"
  using unique_loop_subset [of "retained_records result" "[]"]
  by (cases "returncode result = 0") (auto simp: scan_ports_unique_loop scan_ports_failed)

lemma map_filter_row:
  "r \<in> set (List.map_filter f rows) \<Longrightarrow> \<exists>line \<in> set rows. f line = Some r"
  by (induction rows) (auto split: option.splits)

lemma retained_records_row:
  "r \<in> set (retained_records result) \<Longrightarrow> \<exists>line \<in> set (listed_rows result). scan_line line = Some r"
  unfolding retained_records_def by (rule map_filter_row)

lemma scan_line_Some:
  assumes "scan_line line = Some r"
  shows "contains ''LISTEN'' line" and "4 \<le> length (split_ws [] line)"
    and "CHR '':'' \<in> set (split_ws [] line ! 3)"
    and "py_int (snd (rsplit_colon (split_ws [] line ! 3))) = Some (port r)"
    and "address r = fst (rsplit_colon (split_ws [] line ! 3))"
    and "\<not> startswith (address r) ''127.0.0''" and "\<not> startswith (address r) ''::1''"
    and "service_type r = identify_service (port r) line"
  using assms
  by (auto simp: scan_line_def Let_def split: if_splits prod.splits option.splits)

text \<open>
  Claim C6. When rows of one scan report the same port number, one record survives for
  that port, the one built from the first such row in scan order: for every port \<open>p\<close>
  the records of the result with port \<open>p\<close> are the first retained record with port \<open>p\<close>
  and nothing else, however many retained rows report \<open>p\<close>.
\<close>

theorem first_row_wins:
  assumes "returncode result = 0"
  shows "filter (\<lambda>r. port r = p) (ports (scan_instance_ports inst result)) =
           take 1 (filter (\<lambda>r. port r = p) (retained_records result))
       \<and> (2 \<le> length (filter (\<lambda>r. port r = p) (retained_records result)) \<longrightarrow>
            filter (\<lambda>r. port r = p) (ports (scan_instance_ports inst result)) =
              [hd (filter (\<lambda>r. port r = p) (retained_records result))])"
proof -
  have first: "filter (\<lambda>r. port r = p) (ports (scan_instance_ports inst result)) =
      take 1 (filter (\<lambda>r. port r = p) (retained_records result))"
    using unique_loop_filter [of "[]" p "retained_records result"] assms
    by (simp add: scan_ports_unique_loop)
  have "take 1 xs = [hd xs]" if "2 \<le> length xs" for xs :: "port_info list"
    using that by (cases xs) simp_all
  with first show ?thesis
    by simp
qed

lemmas text_eval =
  strip_def is_space_def listed_rows_def scan_line_def Let_def rsplit_colon_def
  py_int_def numeral_value_def is_digit_def digit_val_def is_c_space_def startswith_def
  identify_service_def common_ports_def lower_def lower_char_def

theorem first_row_wins_witness:
  "filter (\<lambda>r. port r = 5432)
     (ports (scan_instance_ports ''Ubuntu''
        \<lparr>returncode = 0,
         stdout = ''State Recv-Q Send-Q Local Address:Port Peer Address:Port'' @ [CHR 0x0A]
           @ ''LISTEN 0 244 0.0.0.0:5432 0.0.0.0:*'' @ [CHR 0x0A]
           @ ''LISTEN 0 244 [::]:5432 [::]:*'',
         stderr = ''''\<rparr>)) =
   [\<lparr>port = 5432, protocol = ''tcp'', address = ''0.0.0.0'', service_type = ''PostgreSQL'',
      raw_line = ''LISTEN 0 244 0.0.0.0:5432 0.0.0.0:*''\<rparr>]"
proof -
  let ?result =
    "\<lparr>returncode = 0,
      stdout = ''State Recv-Q Send-Q Local Address:Port Peer Address:Port'' @ [CHR 0x0A]
        @ ''LISTEN 0 244 0.0.0.0:5432 0.0.0.0:*'' @ [CHR 0x0A]
        @ ''LISTEN 0 244 [::]:5432 [::]:*'',
      stderr = ''''\<rparr>"
  have rows: "retained_records ?result =
     [\<lparr>port = 5432, protocol = ''tcp'', address = ''0.0.0.0'', service_type = ''PostgreSQL'',
        raw_line = ''LISTEN 0 244 0.0.0.0:5432 0.0.0.0:*''\<rparr>,
      \<lparr>port = 5432, protocol = ''tcp'', address = ''[::]'', service_type = ''PostgreSQL'',
        raw_line = ''LISTEN 0 244 [::]:5432 [::]:*''\<rparr>]"
    by (simp add: retained_records_def text_eval)
  have ok: "returncode ?result = 0"
    by simp
  show ?thesis
    using first_row_wins [OF ok, of 5432 "''Ubuntu''"] rows by simp
qed

text \<open>
  Claim C3, as the code has it. The scanner reads the port with \<^verbatim>\<open>int\<close> and checks no
  range: a row whose local address ends in \<^verbatim>\<open>:70000\<close> is stored with port 70000.
\<close>

theorem port_out_of_range:
  "map port
     (ports (scan_instance_ports ''Ubuntu''
        \<lparr>returncode = 0,
         stdout = ''State Recv-Q Send-Q Local Address:Port Peer Address:Port'' @ [CHR 0x0A]
           @ ''LISTEN 0 128 0.0.0.0:70000 0.0.0.0:*'',
         stderr = ''''\<rparr>)) = [70000]
   \<and> \<not> (1 \<le> (70000 :: int) \<and> (70000 :: int) \<le> 65535)"
  by (simp add: scan_instance_ports_def text_eval)

text \<open>
  Claim C3, amended. Every record stored in a scan result has the port that \<^verbatim>\<open>int\<close>
  reads from the text after the last colon of the fourth column of one of the listed
  rows that holds the word LISTEN; the value is any integer that text denotes.
\<close>

theorem stored_port_is_parsed:
  assumes "r \<in> set (ports (scan_instance_ports inst result))"
  shows "\<exists>line \<in> set (listed_rows result).
           contains ''LISTEN'' line \<and> 4 \<le> length (split_ws [] line)
           \<and> py_int (snd (rsplit_colon (split_ws [] line ! 3))) = Some (port r)"
proof -
  from assms have "r \<in> set (retained_records result)"
    by (rule scan_ports_retained)
  then obtain line where "line \<in> set (listed_rows result)" and "scan_line line = Some r"
    using retained_records_row by blast
  then show ?thesis
    using scan_line_Some(1,2,4) by blast
qed

theorem stored_port_is_parsed_witness:
  "py_int (snd (rsplit_colon (split_ws [] ''LISTEN 0 128 0.0.0.0:70000 0.0.0.0:*'' ! 3))) = Some 70000"
proof -
  let ?result =
    "\<lparr>returncode = 0,
      stdout = ''State Recv-Q Send-Q Local Address:Port Peer Address:Port'' @ [CHR 0x0A]
        @ ''LISTEN 0 128 0.0.0.0:70000 0.0.0.0:*'',
      stderr = ''''\<rparr>"
  let ?r =
    "\<lparr>port = 70000, protocol = ''tcp'', address = ''0.0.0.0'', service_type = ''Unknown'',
      raw_line = ''LISTEN 0 128 0.0.0.0:70000 0.0.0.0:*''\<rparr>"
  have stored: "?r \<in> set (ports (scan_instance_ports ''Ubuntu'' ?result))"
    by (simp add: scan_instance_ports_def text_eval)
  have rows: "listed_rows ?result = [''LISTEN 0 128 0.0.0.0:70000 0.0.0.0:*'']"
    by (simp add: text_eval)
  show ?thesis
    using stored_port_is_parsed [OF stored] rows by simp
qed

lemma stored_address_prefix:
  assumes "r \<in> set (ports (scan_instance_ports inst result))"
  shows "\<not> startswith (address r) ''127.0.0'' \<and> \<not> startswith (address r) ''::1''"
proof -
  from assms have "r \<in> set (retained_records result)"
    by (rule scan_ports_retained)
  then obtain line where "scan_line line = Some r"
    using retained_records_row by blast
  then show ?thesis
    using scan_line_Some(6,7) by blast
qed

text \<open>
  Claim C2, on the code. The scanner drops a row when its address starts with
  \<^verbatim>\<open>127.0.0\<close> or with \<^verbatim>\<open>::1\<close>, and only then. The loopback address 127.0.1.1 and
  the bracketed form \<^verbatim>\<open>[::1]\<close> that \<^verbatim>\<open>ss\<close> prints start with neither: both rows are
  stored.
\<close>

theorem loopback_row_kept:
  "map (\<lambda>r. (address r, port r))
     (ports (scan_instance_ports ''Ubuntu''
        \<lparr>returncode = 0,
         stdout = ''State Recv-Q Send-Q Local Address:Port Peer Address:Port'' @ [CHR 0x0A]
           @ ''LISTEN 0 4096 127.0.1.1:53 0.0.0.0:*'' @ [CHR 0x0A]
           @ ''LISTEN 0 128 [::1]:631 [::]:*'' @ [CHR 0x0A]
           @ ''LISTEN 0 244 127.0.0.1:5432 0.0.0.0:*'',
         stderr = ''''\<rparr>)) =
   [(''127.0.1.1'', 53), (''[::1]'', 631)]"
  by (simp add: scan_instance_ports_def text_eval)

section \<open>The allocator: one step\<close>

declare next_free.simps [simp del]

lemma next_free_unused: "next_free used p |\<notin>| used"
proof (induction used p rule: next_free.induct)
  case (1 used p)
  then show ?case
    by (subst next_free.simps) simp
qed

lemma next_free_ge: "p \<le> next_free used p"
proof (induction used p rule: next_free.induct)
  case (1 used p)
  show ?case
  proof (cases "p |\<in>| used")
    case True
    with "1.IH" have "p + 1 \<le> next_free used (p + 1)"
      by simp
    with True show ?thesis
      by (subst next_free.simps) simp
  next
    case False
    then show ?thesis
      by (subst next_free.simps) simp
  qed
qed

lemma next_free_least: "p \<le> q \<Longrightarrow> q < next_free used p \<Longrightarrow> q |\<in>| used"
proof (induction used p rule: next_free.induct)
  case (1 used p)
  show ?case
  proof (cases "p |\<in>| used")
    case True
    then have eq: "next_free used p = next_free used (p + 1)"
      by (subst next_free.simps) simp
    show ?thesis
    proof (cases "q = p")
      case True
      with \<open>p |\<in>| used\<close> show ?thesis by simp
    next
      case False
      with "1.prems" have "p + 1 \<le> q" by simp
      with "1.IH" [OF True] "1.prems" eq show ?thesis by simp
    qed
  next
    case False
    then have "next_free used p = p"
      by (subst next_free.simps) simp
    with "1.prems" show ?thesis by simp
  qed
qed

lemma choose_fallback:
  "fallback_rule (port r) (service_type r) \<Longrightarrow>
     choose_external_port st r = (next_free (used_external_ports st) (9000 + port r mod 1000), st)"
  by (auto simp: choose_external_port_def fallback_rule_def Let_def)

lemma choose_keeps:
  "port_assignments (snd (choose_external_port st r)) = port_assignments st"
  "used_external_ports (snd (choose_external_port st r)) = used_external_ports st"
  "conflicts (snd (choose_external_port st r)) = conflicts st"
  by (simp_all add: choose_external_port_def Let_def)

lemma assign_port_assignments:
  "port_assignments (assign_port inst st r) =
     dict_append (port_assignments st) inst (new_mapping inst r (fst (choose_external_port st r)))"
  using choose_keeps(1) [of st r]
  by (simp add: assign_port_def split_beta)

lemma assign_port_used:
  "used_external_ports (assign_port inst st r) =
     finsert (fst (choose_external_port st r)) (used_external_ports st)"
  using choose_keeps(2) [of st r]
  by (auto simp: assign_port_def split_beta)

lemma assign_port_conflicts:
  "conflicts (assign_port inst st r) =
     (if fst (choose_external_port st r) |\<in>| used_external_ports st
      then defaultdict_append (conflicts st) (fst (choose_external_port st r))
             \<lparr>c_instance = inst, c_internal_port = port r, c_service_type = service_type r\<rparr>
      else conflicts st)"
  using choose_keeps(2,3) [of st r]
  by (simp add: assign_port_def split_beta)

section \<open>The allocator: the loops\<close>

lemma dict_set_fresh: "k \<notin> fst ` set d \<Longrightarrow> dict_set d k v = d @ [(k, v)]"
  by (induction d) auto

lemma dict_set_keys:
  "map fst (dict_set d k v) = (if k \<in> fst ` set d then map fst d else map fst d @ [k])"
  by (induction d) force+

lemma dict_set_key: "k \<in> set (map fst (dict_set d k v))"
  unfolding dict_set_keys by simp

lemma dict_append_keys: "map fst (dict_append d k x) = map fst d"
  by (induction d) auto

lemma assign_port_keys:
  "map fst (port_assignments (assign_port inst st r)) = map fst (port_assignments st)"
  by (simp add: assign_port_assignments dict_append_keys)

lemma ports_loop_keys:
  "map fst (port_assignments (ports_loop inst rs st)) = map fst (port_assignments st)"
  by (induction rs arbitrary: st) (simp_all add: assign_port_keys)

lemma dict_append_last:
  "k \<notin> fst ` set d \<Longrightarrow> dict_append (d @ [(k, xs)]) k x = d @ [(k, xs @ [x])]"
  by (induction d) auto

lemma defaultdict_append_claimants:
  "set (concat (map snd (defaultdict_append d k x))) = insert x (set (concat (map snd d)))"
proof (induction d)
  case Nil
  show ?case by simp
next
  case (Cons p d)
  obtain k' xs where p: "p = (k', xs)"
    by (cases p)
  show ?case
  proof (cases "k' = k")
    case True
    then show ?thesis
      by (simp add: p)
  next
    case False
    with Cons.IH show ?thesis
      by (simp add: p)
  qed
qed

lemma no_fallback_claimant_iff:
  "no_fallback_claimant cf \<longleftrightarrow>
     (\<forall>c \<in> set (concat (map snd cf)). \<not> fallback_rule (c_internal_port c) (c_service_type c))"
  unfolding no_fallback_claimant_def by force

lemma ports_loop_plan:
  "port_assignments st = pa @ [(k, xs)] \<Longrightarrow> k \<notin> fst ` set pa \<Longrightarrow>
     port_assignments (ports_loop k rs st) = pa @ [(k, xs @ emitted_mappings k rs st)]"
proof (induction rs arbitrary: st xs)
  case Nil
  then show ?case by simp
next
  case (Cons r rs)
  let ?m = "new_mapping k r (fst (choose_external_port st r))"
  have "port_assignments (assign_port k st r) = pa @ [(k, xs @ [?m])]"
    using Cons.prems by (simp add: assign_port_assignments dict_append_last)
  from Cons.IH [OF this Cons.prems(2)] show ?case
    by simp
qed

lemma emitted_sources:
  "map mapping_source (emitted_mappings k rs st) = map (record_source k) rs"
  by (induction rs arbitrary: st) (simp_all add: mapping_source_def record_source_def new_mapping_def)

lemma emitted_firewall:
  "m \<in> set (emitted_mappings k rs st) \<Longrightarrow> m_firewall m = ''local''"
  by (induction rs arbitrary: st) (auto simp: new_mapping_def)

lemma ports_loop_used_mono:
  "q |\<in>| used_external_ports st \<Longrightarrow> q |\<in>| used_external_ports (ports_loop k rs st)"
  by (induction rs arbitrary: st) (simp_all add: assign_port_used)

lemma new_mapping_fallback:
  "mapping_fallback (new_mapping k r e) = fallback_rule (port r) (service_type r)"
  by (simp add: mapping_fallback_def new_mapping_def)

lemma emitted_fallback_fresh:
  "m \<in> set (emitted_mappings k rs st) \<Longrightarrow> mapping_fallback m \<Longrightarrow>
     m_port m |\<notin>| used_external_ports st \<and> 9000 + m_internal_port m mod 1000 \<le> m_port m"
proof (induction rs arbitrary: st)
  case Nil
  then show ?case by simp
next
  case (Cons r rs)
  show ?case
  proof (cases "m = new_mapping k r (fst (choose_external_port st r))")
    case True
    with Cons.prems(2) have "fallback_rule (port r) (service_type r)"
      by (simp add: new_mapping_fallback)
    then have "fst (choose_external_port st r) =
        next_free (used_external_ports st) (9000 + port r mod 1000)"
      by (simp add: choose_fallback)
    with True show ?thesis
      by (simp add: new_mapping_def next_free_unused next_free_ge)
  next
    case False
    with Cons.prems(1) have "m \<in> set (emitted_mappings k rs (assign_port k st r))"
      by simp
    from Cons.IH [OF this Cons.prems(2)] show ?thesis
      by (simp add: assign_port_used)
  qed
qed

lemma emitted_fallback_block:
  "m \<in> set (emitted_mappings k rs st) \<Longrightarrow> mapping_fallback m \<Longrightarrow>
     9000 + m_internal_port m mod 1000 \<le> q \<Longrightarrow> q \<le> m_port m \<Longrightarrow>
     q |\<in>| used_external_ports (ports_loop k rs st)"
proof (induction rs arbitrary: st)
  case Nil
  then show ?case by simp
next
  case (Cons r rs)
  show ?case
  proof (cases "m = new_mapping k r (fst (choose_external_port st r))")
    case True
    with Cons.prems(2) have "fallback_rule (port r) (service_type r)"
      by (simp add: new_mapping_fallback)
    then have e: "fst (choose_external_port st r) =
        next_free (used_external_ports st) (9000 + port r mod 1000)"
      by (simp add: choose_fallback)
    have "q |\<in>| used_external_ports (assign_port k st r)"
    proof (cases "q = m_port m")
      case True
      with \<open>m = _\<close> show ?thesis
        by (simp add: assign_port_used new_mapping_def)
    next
      case False
      with Cons.prems(3,4) \<open>m = _\<close> e
      have "9000 + port r mod 1000 \<le> q"
        and "q < next_free (used_external_ports st) (9000 + port r mod 1000)"
        by (simp_all add: new_mapping_def)
      then have "q |\<in>| used_external_ports st"
        by (rule next_free_least)
      then show ?thesis
        by (simp add: assign_port_used)
    qed
    then show ?thesis
      by (simp add: ports_loop_used_mono)
  next
    case False
    with Cons.prems(1) have "m \<in> set (emitted_mappings k rs (assign_port k st r))"
      by simp
    from Cons.IH [OF this Cons.prems(2,3,4)] show ?thesis
      by simp
  qed
qed

lemma assign_port_no_fallback_claimant:
  assumes "no_fallback_claimant (conflicts st)"
  shows "no_fallback_claimant (conflicts (assign_port k st r))"
proof (cases "fst (choose_external_port st r) |\<in>| used_external_ports st")
  case False
  with assms show ?thesis
    by (simp add: assign_port_conflicts)
next
  case True
  have "\<not> fallback_rule (port r) (service_type r)"
  proof
    assume "fallback_rule (port r) (service_type r)"
    then have "fst (choose_external_port st r) =
        next_free (used_external_ports st) (9000 + port r mod 1000)"
      by (simp add: choose_fallback)
    with True show False
      by (simp add: next_free_unused)
  qed
  then have "\<not> fallback_rule
      (c_internal_port \<lparr>c_instance = k, c_internal_port = port r, c_service_type = service_type r\<rparr>)
      (c_service_type \<lparr>c_instance = k, c_internal_port = port r, c_service_type = service_type r\<rparr>)"
    by simp
  moreover from assms
  have "\<forall>c \<in> set (concat (map snd (conflicts st))).
      \<not> fallback_rule (c_internal_port c) (c_service_type c)"
    unfolding no_fallback_claimant_iff .
  ultimately
  have "\<forall>c \<in> insert \<lparr>c_instance = k, c_internal_port = port r, c_service_type = service_type r\<rparr>
        (set (concat (map snd (conflicts st)))).
      \<not> fallback_rule (c_internal_port c) (c_service_type c)"
    by blast
  moreover have "set (concat (map snd (conflicts (assign_port k st r)))) =
      insert \<lparr>c_instance = k, c_internal_port = port r, c_service_type = service_type r\<rparr>
        (set (concat (map snd (conflicts st))))"
    using True by (simp only: assign_port_conflicts if_True defaultdict_append_claimants)
  ultimately show ?thesis
    unfolding no_fallback_claimant_iff by (simp only:)
qed

lemma ports_loop_no_fallback_claimant:
  "no_fallback_claimant (conflicts st) \<Longrightarrow> no_fallback_claimant (conflicts (ports_loop k rs st))"
  by (induction rs arbitrary: st) (simp_all add: assign_port_no_fallback_claimant)

lemma instances_loop_no_fallback_claimant:
  "no_fallback_claimant (conflicts st) \<Longrightarrow>
     no_fallback_claimant (conflicts (instances_loop infos st))"
  by (induction infos arbitrary: st) (simp_all add: ports_loop_no_fallback_claimant)

lemma instances_loop_used_mono:
  "q |\<in>| used_external_ports st \<Longrightarrow> q |\<in>| used_external_ports (instances_loop infos st)"
  by (induction infos arbitrary: st) (simp_all add: ports_loop_used_mono)

lemma instances_loop_append:
  "instances_loop (xs @ ys) st = instances_loop ys (instances_loop xs st)"
  by (induction xs arbitrary: st) simp_all

lemma instances_loop_filter:
  "instances_loop infos st = instances_loop (filter accessible infos) st"
  by (induction infos arbitrary: st) simp_all

lemma instances_loop_plan:
  "distinct (map instance_id (filter accessible infos)) \<Longrightarrow>
   instance_id ` set (filter accessible infos) \<inter> fst ` set (port_assignments st) = {} \<Longrightarrow>
     port_assignments (instances_loop infos st) = port_assignments st @ emitted_plan infos st"
proof (induction infos arbitrary: st)
  case Nil
  then show ?case by simp
next
  case (Cons info infos)
  show ?case
  proof (cases "accessible info")
    case False
    with Cons show ?thesis by simp
  next
    case True
    let ?k = "instance_id info"
    let ?st0 = "st\<lparr>port_assignments := dict_set (port_assignments st) ?k []\<rparr>"
    let ?st1 = "ports_loop ?k (ports info) ?st0"
    from True Cons.prems(2) have fresh: "?k \<notin> fst ` set (port_assignments st)"
      by auto
    then have "port_assignments ?st0 = port_assignments st @ [(?k, [])]"
      by (simp add: dict_set_fresh)
    from ports_loop_plan [OF this fresh, of "ports info"]
    have pa1: "port_assignments ?st1 =
        port_assignments st @ [(?k, emitted_mappings ?k (ports info) ?st0)]"
      by simp
    have d: "distinct (map instance_id (filter accessible infos))"
      using Cons.prems(1) True by simp
    have "instance_id ` set (filter accessible infos) \<inter> fst ` set (port_assignments ?st1) = {}"
      using Cons.prems True unfolding pa1 by auto
    from Cons.IH [OF d this] True pa1 show ?thesis
      by simp
  qed
qed

lemma emitted_plan_sources:
  "plan_sources (emitted_plan infos st) =
     map (\<lambda>info. (instance_id info, map (record_source (instance_id info)) (ports info)))
       (filter accessible infos)"
  by (induction infos arbitrary: st) (simp_all add: plan_sources_def emitted_sources)

lemma emitted_plan_firewall:
  "(k, ms) \<in> set (emitted_plan infos st) \<Longrightarrow> m \<in> set ms \<Longrightarrow> m_firewall m = ''local''"
  by (induction infos arbitrary: st) (auto simp: emitted_firewall split: if_splits)

lemma emitted_plan_fallback_fresh:
  "(k, ms) \<in> set (emitted_plan infos st) \<Longrightarrow> m \<in> set ms \<Longrightarrow> mapping_fallback m \<Longrightarrow>
     m_port m |\<notin>| used_external_ports st \<and> 9000 + m_internal_port m mod 1000 \<le> m_port m"
proof (induction infos arbitrary: st)
  case Nil
  then show ?case by simp
next
  case (Cons info infos)
  show ?case
  proof (cases "accessible info")
    case False
    with Cons show ?thesis by simp
  next
    case True
    let ?k = "instance_id info"
    let ?st0 = "st\<lparr>port_assignments := dict_set (port_assignments st) ?k []\<rparr>"
    let ?st1 = "ports_loop ?k (ports info) ?st0"
    from Cons.prems(1) True
    consider "ms = emitted_mappings ?k (ports info) ?st0" | "(k, ms) \<in> set (emitted_plan infos ?st1)"
      by auto
    then show ?thesis
    proof cases
      case 1
      with Cons.prems(2) have "m \<in> set (emitted_mappings ?k (ports info) ?st0)"
        by simp
      from emitted_fallback_fresh [OF this Cons.prems(3)] show ?thesis
        by simp
    next
      case 2
      from Cons.IH [OF 2 Cons.prems(2,3)]
      have "m_port m |\<notin>| used_external_ports ?st1"
        and ge: "9000 + m_internal_port m mod 1000 \<le> m_port m"
        by simp_all
      moreover have "m_port m |\<in>| used_external_ports st \<Longrightarrow> m_port m |\<in>| used_external_ports ?st1"
        using ports_loop_used_mono [of "m_port m" ?st0 ?k "ports info"] by simp
      ultimately show ?thesis
        by blast
    qed
  qed
qed

lemma emitted_plan_pairs:
  "a < b \<Longrightarrow> b < length (emitted_plan infos st) \<Longrightarrow>
   m1 \<in> set (snd (emitted_plan infos st ! a)) \<Longrightarrow> m2 \<in> set (snd (emitted_plan infos st ! b)) \<Longrightarrow>
   mapping_fallback m1 \<Longrightarrow> mapping_fallback m2 \<Longrightarrow>
   m_internal_port m1 mod 1000 = m_internal_port m2 mod 1000 \<Longrightarrow>
     m_port m1 < m_port m2"
proof (induction infos arbitrary: st a b)
  case Nil
  then show ?case by simp
next
  case (Cons info infos)
  show ?case
  proof (cases "accessible info")
    case False
    with Cons.prems Cons.IH [of a b st] show ?thesis
      by simp
  next
    case True
    let ?k = "instance_id info"
    let ?st0 = "st\<lparr>port_assignments := dict_set (port_assignments st) ?k []\<rparr>"
    let ?st1 = "ports_loop ?k (ports info) ?st0"
    have plan: "emitted_plan (info # infos) st =
        (?k, emitted_mappings ?k (ports info) ?st0) # emitted_plan infos ?st1"
      using True by simp
    from Cons.prems(1) obtain b' where b: "b = Suc b'"
      by (cases b) auto
    with Cons.prems(2,4) plan
    have b'len: "b' < length (emitted_plan infos ?st1)"
      and m2: "m2 \<in> set (snd (emitted_plan infos ?st1 ! b'))"
      by simp_all
    show ?thesis
    proof (cases a)
      case 0
      with Cons.prems(3) plan have m1: "m1 \<in> set (emitted_mappings ?k (ports info) ?st0)"
        by simp
      have "(fst (emitted_plan infos ?st1 ! b'), snd (emitted_plan infos ?st1 ! b'))
          \<in> set (emitted_plan infos ?st1)"
        using b'len by simp
      from emitted_plan_fallback_fresh [OF this m2 Cons.prems(6)]
      have fresh: "m_port m2 |\<notin>| used_external_ports ?st1"
        and ge: "9000 + m_internal_port m2 mod 1000 \<le> m_port m2"
        by simp_all
      have "\<not> m_port m2 \<le> m_port m1"
      proof
        assume "m_port m2 \<le> m_port m1"
        with ge Cons.prems(7)
        have "m_port m2 |\<in>| used_external_ports ?st1"
          using emitted_fallback_block [OF m1 Cons.prems(5), of "m_port m2"] by simp
        with fresh show False
          by simp
      qed
      then show ?thesis
        by simp
    next
      case (Suc a')
      with Cons.prems(1,3) b plan
      have "a' < b'" and "m1 \<in> set (snd (emitted_plan infos ?st1 ! a'))"
        by simp_all
      from Cons.IH [OF this(1) b'len this(2) m2 Cons.prems(5,6,7)] show ?thesis .
    qed
  qed
qed

section \<open>The allocator: what the plan holds\<close>

lemmas alloc_eval =
  assign_external_ports_def initial_state_def assign_port_def choose_external_port_def
  new_mapping_def Let_def next_free.simps

lemma assign_external_ports_plan:
  assumes "distinct (map instance_id (filter accessible infos))"
  shows "fst (assign_external_ports infos) = emitted_plan infos initial_state"
proof -
  have "instance_id ` set (filter accessible infos) \<inter> fst ` set (port_assignments initial_state) = {}"
    by (simp add: initial_state_def)
  from instances_loop_plan [OF assms this] show ?thesis
    by (simp add: assign_external_ports_def Let_def initial_state_def)
qed

lemma assign_external_ports_no_fallback_claimant:
  "no_fallback_claimant (snd (assign_external_ports infos))"
proof -
  have "no_fallback_claimant (conflicts initial_state)"
    by (simp add: no_fallback_claimant_def initial_state_def)
  then have "no_fallback_claimant (conflicts (instances_loop infos initial_state))"
    by (rule instances_loop_no_fallback_claimant)
  then show ?thesis
    by (simp add: assign_external_ports_def Let_def)
qed

lemma plan_sources_nth:
  assumes "plan_sources plan = map (\<lambda>info. (instance_id info, map (record_source (instance_id info)) (ports info))) acc"
    and "a < length acc" and "i < length (ports (acc ! a))"
  shows "a < length plan" and "fst (plan ! a) = instance_id (acc ! a)"
    and "i < length (snd (plan ! a))"
    and "mapping_source (snd (plan ! a) ! i) = record_source (instance_id (acc ! a)) (ports (acc ! a) ! i)"
proof -
  from assms(1) have "length (plan_sources plan) = length acc"
    by simp
  then show len: "a < length plan"
    using assms(2) by (simp add: plan_sources_def)
  from assms(1,2) have "plan_sources plan ! a =
      (instance_id (acc ! a), map (record_source (instance_id (acc ! a))) (ports (acc ! a)))"
    by simp
  with len have eq: "(fst (plan ! a), map mapping_source (snd (plan ! a))) =
      (instance_id (acc ! a), map (record_source (instance_id (acc ! a))) (ports (acc ! a)))"
    by (simp add: plan_sources_def split_beta)
  then show "fst (plan ! a) = instance_id (acc ! a)"
    by simp
  from eq have maps: "map mapping_source (snd (plan ! a)) =
      map (record_source (instance_id (acc ! a))) (ports (acc ! a))"
    by simp
  then have "length (snd (plan ! a)) = length (ports (acc ! a))"
    by (rule map_eq_imp_length_eq)
  with assms(3) show i: "i < length (snd (plan ! a))"
    by simp
  from maps have "map mapping_source (snd (plan ! a)) ! i =
      map (record_source (instance_id (acc ! a))) (ports (acc ! a)) ! i"
    by simp
  with i assms(3) show "mapping_source (snd (plan ! a) ! i) =
      record_source (instance_id (acc ! a)) (ports (acc ! a) ! i)"
    by simp
qed

lemma mapping_fallback_source:
  "mapping_source m = record_source k r \<Longrightarrow>
     mapping_fallback m = fallback_rule (port r) (service_type r) \<and> m_internal_port m = port r"
  by (simp add: mapping_source_def record_source_def mapping_fallback_def)

text \<open>
  Claim C8. For scan results whose accessible instances have pairwise different
  identifiers (the data model's rule for one scan run), the plan has one entry for each
  accessible instance, in enumeration order, and the entry has one mapping for each port
  record of the instance, in scan order, made for that record (same instance, internal
  port, label and bound address), whether or not its external port collided.
\<close>

theorem one_mapping_per_record:
  assumes "distinct (map instance_id (filter accessible infos))"
  shows "plan_sources (fst (assign_external_ports infos)) =
           map (\<lambda>info. (instance_id info, map (record_source (instance_id info)) (ports info)))
             (filter accessible infos)"
  using assms by (simp add: assign_external_ports_plan emitted_plan_sources)

theorem one_mapping_per_record_witness:
  "plan_sources (fst (assign_external_ports
     [\<lparr>instance_id = ''A'', accessible = True,
       ports = [\<lparr>port = 9001, protocol = ''tcp'', address = ''0.0.0.0'',
                 service_type = ''Unknown'', raw_line = ''LISTEN 0 128 0.0.0.0:9001 0.0.0.0:*''\<rparr>,
                \<lparr>port = 3000, protocol = ''tcp'', address = ''*'',
                 service_type = ''Node.js Dev'', raw_line = ''LISTEN 0 511 *:3000 *:*''\<rparr>],
       services = [], error = None\<rparr>,
      \<lparr>instance_id = ''B'', accessible = False, ports = [], services = [],
       error = Some ''Failed to access (exit 1): ''\<rparr>,
      \<lparr>instance_id = ''C'', accessible = True,
       ports = [\<lparr>port = 22, protocol = ''tcp'', address = ''0.0.0.0'',
                 service_type = ''SSH'', raw_line = ''LISTEN 0 128 0.0.0.0:22 0.0.0.0:*''\<rparr>],
       services = [], error = None\<rparr>]))
   = [(''A'', [(''A'', 9001, ''Unknown'', ''0.0.0.0''), (''A'', 3000, ''Node.js Dev'', ''*'')]),
      (''C'', [(''C'', 22, ''SSH'', ''0.0.0.0'')])]"
  (is "plan_sources (fst (assign_external_ports ?infos)) = _")
proof -
  have "distinct (map instance_id (filter accessible ?infos))"
    by simp
  from one_mapping_per_record [OF this] show ?thesis
    by (simp add: record_source_def)
qed

text \<open>
  The hypothesis on the identifiers cannot be dropped. The plan is a dictionary keyed by
  the identifier, and \<^verbatim>\<open>port_assignments[instance] = []\<close> restarts the entry of an
  identifier that comes a second time: of two accessible results with the identifier
  "A", the plan keeps the mapping of the second only.
\<close>

lemma repeated_identifier_restarts_entry:
  "map (\<lambda>(inst, ms). (inst, map m_port ms))
     (fst (assign_external_ports
        [\<lparr>instance_id = ''A'', accessible = True,
          ports = [\<lparr>port = 22, protocol = ''tcp'', address = ''0.0.0.0'', service_type = ''SSH'',
                    raw_line = ''LISTEN 0 128 0.0.0.0:22 0.0.0.0:*''\<rparr>],
          services = [], error = None\<rparr>,
         \<lparr>instance_id = ''A'', accessible = True,
          ports = [\<lparr>port = 22, protocol = ''tcp'', address = ''0.0.0.0'', service_type = ''SSH'',
                    raw_line = ''LISTEN 0 128 0.0.0.0:22 0.0.0.0:*''\<rparr>],
          services = [], error = None\<rparr>]))
   = [(''A'', [2202])]"
  by (simp add: alloc_eval)

text \<open>
  Claim C1, amended. Take two accessible instances, the first enumerated before the
  second, each with a port record that the fallback rule assigns, the two candidates
  \<open>9000 + (port mod 1000)\<close> being equal. Both records receive their mapping, the second
  record's external port is strictly larger than the first one's (the loop moved it
  past the used ports), and no conflict entry of the run has a fallback-assigned record
  as a claimant.
\<close>

theorem fallback_pair_distinct_ports:
  assumes "distinct (map instance_id (filter accessible infos))"
    and "a < b" and "b < length (filter accessible infos)"
    and "filter accessible infos ! a = info1" and "filter accessible infos ! b = info2"
    and "i < length (ports info1)" and "ports info1 ! i = r1"
    and "j < length (ports info2)" and "ports info2 ! j = r2"
    and "fallback_rule (port r1) (service_type r1)"
    and "fallback_rule (port r2) (service_type r2)"
    and "port r1 mod 1000 = port r2 mod 1000"
    and "assign_external_ports infos = (plan, conflict_map)"
  shows "mapping_source (snd (plan ! a) ! i) = record_source (instance_id info1) r1
       \<and> mapping_source (snd (plan ! b) ! j) = record_source (instance_id info2) r2
       \<and> m_port (snd (plan ! a) ! i) < m_port (snd (plan ! b) ! j)
       \<and> no_fallback_claimant conflict_map"
proof -
  let ?acc = "filter accessible infos"
  from assms(13) have plan: "plan = fst (assign_external_ports infos)"
    and cm: "conflict_map = snd (assign_external_ports infos)"
    by simp_all
  have emitted: "plan = emitted_plan infos initial_state"
    unfolding plan using assms(1) by (rule assign_external_ports_plan)
  have sources: "plan_sources plan =
      map (\<lambda>info. (instance_id info, map (record_source (instance_id info)) (ports info))) ?acc"
    unfolding emitted by (rule emitted_plan_sources)
  have a: "a < length ?acc" and ia: "i < length (ports (?acc ! a))"
    and jb: "j < length (ports (?acc ! b))"
    using assms(2-6,8) by simp_all
  note A = plan_sources_nth [OF sources a ia]
  note B = plan_sources_nth [OF sources assms(3) jb]
  from A(4) assms(4,7) have s1: "mapping_source (snd (plan ! a) ! i) = record_source (instance_id info1) r1"
    by simp
  from B(4) assms(5,9) have s2: "mapping_source (snd (plan ! b) ! j) = record_source (instance_id info2) r2"
    by simp
  have m1: "snd (plan ! a) ! i \<in> set (snd (emitted_plan infos initial_state ! a))"
    and m2: "snd (plan ! b) ! j \<in> set (snd (emitted_plan infos initial_state ! b))"
    using A(3) B(3) unfolding emitted by simp_all
  have f1: "mapping_fallback (snd (plan ! a) ! i)" and f2: "mapping_fallback (snd (plan ! b) ! j)"
    and c: "m_internal_port (snd (plan ! a) ! i) mod 1000 = m_internal_port (snd (plan ! b) ! j) mod 1000"
    using mapping_fallback_source [OF s1] mapping_fallback_source [OF s2] assms(10-12)
    by simp_all
  have "b < length (emitted_plan infos initial_state)"
    using B(1) unfolding emitted .
  from emitted_plan_pairs [OF assms(2) this m1 m2 f1 f2 c]
  have "m_port (snd (plan ! a) ! i) < m_port (snd (plan ! b) ! j)" .
  with s1 s2 show ?thesis
    unfolding cm using assign_external_ports_no_fallback_claimant by blast
qed

theorem fallback_pair_distinct_ports_witness:
  "m_port (snd (fst (assign_external_ports
     [\<lparr>instance_id = ''A'', accessible = True,
       ports = [\<lparr>port = 9500, protocol = ''tcp'', address = ''0.0.0.0'',
                 service_type = ''Unknown'', raw_line = ''LISTEN 0 128 0.0.0.0:9500 0.0.0.0:*''\<rparr>],
       services = [], error = None\<rparr>,
      \<lparr>instance_id = ''B'', accessible = True,
       ports = [\<lparr>port = 10500, protocol = ''tcp'', address = ''0.0.0.0'',
                 service_type = ''Unknown'', raw_line = ''LISTEN 0 128 0.0.0.0:10500 0.0.0.0:*''\<rparr>],
       services = [], error = None\<rparr>]) ! 0) ! 0)
   < m_port (snd (fst (assign_external_ports
     [\<lparr>instance_id = ''A'', accessible = True,
       ports = [\<lparr>port = 9500, protocol = ''tcp'', address = ''0.0.0.0'',
                 service_type = ''Unknown'', raw_line = ''LISTEN 0 128 0.0.0.0:9500 0.0.0.0:*''\<rparr>],
       services = [], error = None\<rparr>,
      \<lparr>instance_id = ''B'', accessible = True,
       ports = [\<lparr>port = 10500, protocol = ''tcp'', address = ''0.0.0.0'',
                 service_type = ''Unknown'', raw_line = ''LISTEN 0 128 0.0.0.0:10500 0.0.0.0:*''\<rparr>],
       services = [], error = None\<rparr>]) ! 1) ! 0)"
  (is "m_port (snd (fst (assign_external_ports ?infos) ! 0) ! 0) < _")
proof -
  let ?r1 = "\<lparr>port = 9500, protocol = ''tcp'', address = ''0.0.0.0'',
             service_type = ''Unknown'', raw_line = ''LISTEN 0 128 0.0.0.0:9500 0.0.0.0:*''\<rparr>"
  let ?r2 = "\<lparr>port = 10500, protocol = ''tcp'', address = ''0.0.0.0'',
             service_type = ''Unknown'', raw_line = ''LISTEN 0 128 0.0.0.0:10500 0.0.0.0:*''\<rparr>"
  let ?A = "\<lparr>instance_id = ''A'', accessible = True, ports = [?r1], services = [], error = None\<rparr>"
  let ?B = "\<lparr>instance_id = ''B'', accessible = True, ports = [?r2], services = [], error = None\<rparr>"
  have "distinct (map instance_id (filter accessible ?infos))"
    and "(0::nat) < 1" and "1 < length (filter accessible ?infos)"
    and "filter accessible ?infos ! 0 = ?A" and "filter accessible ?infos ! 1 = ?B"
    and "0 < length (ports ?A)" and "ports ?A ! 0 = ?r1"
    and "0 < length (ports ?B)" and "ports ?B ! 0 = ?r2"
    and "fallback_rule (port ?r1) (service_type ?r1)"
    and "fallback_rule (port ?r2) (service_type ?r2)"
    and "port ?r1 mod 1000 = port ?r2 mod 1000"
    and "assign_external_ports ?infos =
           (fst (assign_external_ports ?infos), snd (assign_external_ports ?infos))"
    by (simp_all add: fallback_rule_def)
  from fallback_pair_distinct_ports [OF this] show ?thesis
    by simp
qed

text \<open>
  Claim C1, as the code has it. Two accessible instances each report port 9500 with the
  label "Unknown": both records fall to the fallback rule with the candidate 9500. The
  first gets 9500, the loop moves the second to 9501, and no conflict is recorded.
\<close>

theorem fallback_pair_no_conflict_entry:
  "assign_external_ports
     [\<lparr>instance_id = ''A'', accessible = True,
       ports = [\<lparr>port = 9500, protocol = ''tcp'', address = ''0.0.0.0'',
                 service_type = ''Unknown'', raw_line = ''LISTEN 0 128 0.0.0.0:9500 0.0.0.0:*''\<rparr>],
       services = [(9500, {''Unknown''})], error = None\<rparr>,
      \<lparr>instance_id = ''B'', accessible = True,
       ports = [\<lparr>port = 9500, protocol = ''tcp'', address = ''0.0.0.0'',
                 service_type = ''Unknown'', raw_line = ''LISTEN 0 128 0.0.0.0:9500 0.0.0.0:*''\<rparr>],
       services = [(9500, {''Unknown''})], error = None\<rparr>]
   = ([(''A'', [\<lparr>m_name = ''A Unknown'', m_distro = ''A'', m_protocol = ''tcp'', m_port = 9500,
                  m_internal_port = 9500, m_firewall = ''local'', m_listen_address = ''0.0.0.0'',
                  m_service_type = ''Unknown'', m_original_address = ''0.0.0.0''\<rparr>]),
       (''B'', [\<lparr>m_name = ''B Unknown'', m_distro = ''B'', m_protocol = ''tcp'', m_port = 9501,
                  m_internal_port = 9500, m_firewall = ''local'', m_listen_address = ''0.0.0.0'',
                  m_service_type = ''Unknown'', m_original_address = ''0.0.0.0''\<rparr>])],
      [])
   \<and> fallback_rule 9500 ''Unknown''"
  by (simp add: alloc_eval fallback_rule_def)

section \<open>The allocator: counters, skipped instances, the fallback rule\<close>

text \<open>
  Claim C5. Three accessible instances with different identifiers, each with exactly one
  port record, of internal port 22 and label "SSH": the plan gives them the external
  ports 2201, 2202 and 2203 in enumeration order, and no conflict is recorded.
\<close>

theorem ssh_counter:
  assumes "distinct [instance_id i1, instance_id i2, instance_id i3]"
    and "accessible i1" and "accessible i2" and "accessible i3"
    and "ports i1 = [r1]" and "ports i2 = [r2]" and "ports i3 = [r3]"
    and "port r1 = 22 \<and> service_type r1 = ''SSH''"
    and "port r2 = 22 \<and> service_type r2 = ''SSH''"
    and "port r3 = 22 \<and> service_type r3 = ''SSH''"
  shows "map (\<lambda>(inst, ms). (inst, map (\<lambda>m. (m_internal_port m, m_port m)) ms))
           (fst (assign_external_ports [i1, i2, i3]))
         = [(instance_id i1, [(22, 2201)]), (instance_id i2, [(22, 2202)]),
            (instance_id i3, [(22, 2203)])]
       \<and> snd (assign_external_ports [i1, i2, i3]) = []"
proof -
  from assms(1) have ne: "instance_id i1 \<noteq> instance_id i2" "instance_id i1 \<noteq> instance_id i3"
    "instance_id i2 \<noteq> instance_id i3"
    by simp_all
  let ?s0 = "initial_state\<lparr>port_assignments := [(instance_id i1, [])]\<rparr>"
  have s1: "assign_port (instance_id i1) ?s0 r1 =
      initial_state\<lparr>port_assignments := [(instance_id i1, [new_mapping (instance_id i1) r1 2201])],
        used_external_ports := {|2201|}, ssh_external := 2202\<rparr>"
    using assms(8) by (simp add: assign_port_def choose_external_port_def initial_state_def)
  let ?s1 = "assign_port (instance_id i1) ?s0 r1"
  let ?s1' = "?s1\<lparr>port_assignments := dict_set (port_assignments ?s1) (instance_id i2) []\<rparr>"
  have s2: "assign_port (instance_id i2) ?s1' r2 =
      initial_state\<lparr>port_assignments :=
          [(instance_id i1, [new_mapping (instance_id i1) r1 2201]),
           (instance_id i2, [new_mapping (instance_id i2) r2 2202])],
        used_external_ports := {|2202, 2201|}, ssh_external := 2203\<rparr>"
    unfolding s1 using assms(9) ne
    by (simp add: assign_port_def choose_external_port_def initial_state_def)
  let ?s2 = "assign_port (instance_id i2) ?s1' r2"
  let ?s2' = "?s2\<lparr>port_assignments := dict_set (port_assignments ?s2) (instance_id i3) []\<rparr>"
  have s3: "assign_port (instance_id i3) ?s2' r3 =
      initial_state\<lparr>port_assignments :=
          [(instance_id i1, [new_mapping (instance_id i1) r1 2201]),
           (instance_id i2, [new_mapping (instance_id i2) r2 2202]),
           (instance_id i3, [new_mapping (instance_id i3) r3 2203])],
        used_external_ports := {|2203, 2202, 2201|}, ssh_external := 2204\<rparr>"
    unfolding s2 using assms(10) ne
    by (simp add: assign_port_def choose_external_port_def initial_state_def)
  have "instances_loop [i1, i2, i3] initial_state = assign_port (instance_id i3) ?s2' r3"
    using assms(2-7) by (simp add: initial_state_def)
  then show ?thesis
    unfolding assign_external_ports_def s3 using assms(8-10)
    by (simp add: initial_state_def new_mapping_def)
qed

theorem ssh_counter_witness:
  "map (\<lambda>(inst, ms). (inst, map (\<lambda>m. (m_internal_port m, m_port m)) ms))
     (fst (assign_external_ports
        [\<lparr>instance_id = ''Ubuntu'', accessible = True,
          ports = [\<lparr>port = 22, protocol = ''tcp'', address = ''0.0.0.0'', service_type = ''SSH'',
                    raw_line = ''LISTEN 0 128 0.0.0.0:22 0.0.0.0:*''\<rparr>],
          services = [(22, {''SSH''})], error = None\<rparr>,
         \<lparr>instance_id = ''Debian'', accessible = True,
          ports = [\<lparr>port = 22, protocol = ''tcp'', address = ''*'', service_type = ''SSH'',
                    raw_line = ''LISTEN 0 128 *:22 *:*''\<rparr>],
          services = [(22, {''SSH''})], error = None\<rparr>,
         \<lparr>instance_id = ''Alpine'', accessible = True,
          ports = [\<lparr>port = 22, protocol = ''tcp'', address = ''[::]'', service_type = ''SSH'',
                    raw_line = ''LISTEN 0 128 [::]:22 [::]:*''\<rparr>],
          services = [(22, {''SSH''})], error = None\<rparr>]))
   = [(''Ubuntu'', [(22, 2201)]), (''Debian'', [(22, 2202)]), (''Alpine'', [(22, 2203)])]"
  (is "map _ (fst (assign_external_ports [?i1, ?i2, ?i3])) = _")
proof -
  have "distinct [instance_id ?i1, instance_id ?i2, instance_id ?i3]"
    and "accessible ?i1" and "accessible ?i2" and "accessible ?i3"
    and "ports ?i1 = [hd (ports ?i1)]" and "ports ?i2 = [hd (ports ?i2)]"
    and "ports ?i3 = [hd (ports ?i3)]"
    and "port (hd (ports ?i1)) = 22 \<and> service_type (hd (ports ?i1)) = ''SSH''"
    and "port (hd (ports ?i2)) = 22 \<and> service_type (hd (ports ?i2)) = ''SSH''"
    and "port (hd (ports ?i3)) = 22 \<and> service_type (hd (ports ?i3)) = ''SSH''"
    by simp_all
  from ssh_counter [OF this] show ?thesis
    by simp
qed

lemma contains_prefix: "contains sub (sub @ post)"
proof (cases "sub @ post")
  case Nil
  then show ?thesis by simp
next
  case (Cons c cs)
  have "take (length sub) (sub @ post) = sub"
    by simp
  then have "take (length sub) (c # cs) = sub"
    unfolding Cons .
  then show ?thesis
    unfolding Cons by simp
qed

lemma contains_infix: "contains sub (pre @ sub @ post)"
  by (induction pre) (simp_all add: contains_prefix)

lemma contains_suffix: "contains sub (pre @ sub)"
  using contains_infix [of sub pre "[]"] by simp

lemma scan_failed:
  "returncode result \<noteq> 0 \<Longrightarrow>
     scan_instance_ports inst result =
       \<lparr>instance_id = inst, accessible = False, ports = [], services = [],
        error = Some (''Failed to access (exit '' @ str_int (returncode result) @ ''): ''
                        @ strip (stderr result))\<rparr>"
  by (simp add: scan_instance_ports_def)

lemma assign_external_ports_skip:
  "\<not> accessible info \<Longrightarrow>
     assign_external_ports (before @ info # after) = assign_external_ports (before @ after)"
  by (simp add: assign_external_ports_def instances_loop_append)

lemma assign_external_ports_filter:
  "assign_external_ports infos = assign_external_ports (filter accessible infos)"
  unfolding assign_external_ports_def
  using instances_loop_filter [of infos initial_state] by simp

text \<open>
  The failure path once the call has returned text. When the socket lister exits with a
  status other than zero and \<^verbatim>\<open>subprocess.run\<close> returned both streams as text, the
  scanner returns a result that is not accessible, whose error text holds the exit status
  and the diagnostic output, and whose port list is empty; the allocator gives the same
  plan and the same conflicts with that result in the input as without it. More
  generally the allocator's output is its output on the accessible instances alone.
\<close>

theorem inaccessible_instance:
  assumes "returncode result \<noteq> 0"
  shows "accessible (scan_instance_ports inst result) = False
       \<and> ports (scan_instance_ports inst result) = []
       \<and> error (scan_instance_ports inst result) =
           Some (''Failed to access (exit '' @ str_int (returncode result) @ ''): ''
                   @ strip (stderr result))
       \<and> contains (str_int (returncode result))
           (''Failed to access (exit '' @ str_int (returncode result) @ ''): ''
              @ strip (stderr result))
       \<and> contains (strip (stderr result))
           (''Failed to access (exit '' @ str_int (returncode result) @ ''): ''
              @ strip (stderr result))
       \<and> assign_external_ports (before @ scan_instance_ports inst result # after) =
           assign_external_ports (before @ after)
       \<and> assign_external_ports infos = assign_external_ports (filter accessible infos)"
proof -
  note failed = scan_failed [OF assms, of inst]
  have "\<not> accessible (scan_instance_ports inst result)"
    by (simp add: failed)
  then have "assign_external_ports (before @ scan_instance_ports inst result # after) =
      assign_external_ports (before @ after)"
    by (rule assign_external_ports_skip)
  moreover have "contains (str_int (returncode result))
      (''Failed to access (exit '' @ str_int (returncode result) @ ''): '' @ strip (stderr result))"
    by (rule contains_infix)
  moreover have "contains (strip (stderr result))
      ((''Failed to access (exit '' @ str_int (returncode result) @ ''): '') @ strip (stderr result))"
    by (rule contains_suffix)
  ultimately show ?thesis
    using assign_external_ports_filter [of infos] by (simp add: failed)
qed

theorem inaccessible_instance_witness:
  "error (scan_instance_ports ''Debian''
      \<lparr>returncode = 1, stdout = '''', stderr = ''There is no distribution with the supplied name.'' @ [CHR 0x0A]\<rparr>)
     = Some ''Failed to access (exit 1): There is no distribution with the supplied name.''
   \<and> assign_external_ports
       [scan_instance_ports ''Debian''
          \<lparr>returncode = 1, stdout = '''', stderr = ''There is no distribution with the supplied name.'' @ [CHR 0x0A]\<rparr>]
     = ([], [])"
proof -
  let ?result = "\<lparr>returncode = 1, stdout = '''',
    stderr = ''There is no distribution with the supplied name.'' @ [CHR 0x0A]\<rparr>"
  have "returncode ?result \<noteq> 0"
    by simp
  from inaccessible_instance [OF this, of "''Debian''" "[]" "[]" "[]"] show ?thesis
    by (simp add: str_int_def digit_char_def strip_def is_space_def
        assign_external_ports_def initial_state_def)
qed

lemma scan_instance_decoded:
  "scan_instance pf inst \<lparr>exit_status = rc, out_text = Some so, err_text = Some se\<rparr> =
     Inr (scan_instance_ports inst \<lparr>returncode = rc, stdout = so, stderr = se\<rparr>)"
  by (simp add: scan_instance_def subprocess_run_def)

lemma scan_instance_failed_decoded:
  "rc \<noteq> 0 \<Longrightarrow>
     scan_instance pf inst \<lparr>exit_status = rc, out_text = Some so, err_text = Some se\<rparr> =
       Inr \<lparr>instance_id = inst, accessible = False, ports = [], services = [],
            error = Some (''Failed to access (exit '' @ str_int rc @ ''): '' @ strip se)\<rparr>"
  by (simp add: scan_instance_decoded scan_failed)

lemma scan_instance_raises:
  "exit_status out \<noteq> 0 \<Longrightarrow> err_text out = None \<Longrightarrow>
     scan_instance pf inst out = Inl (if pf = Posix then UnicodeDecodeError else AttributeError)"
  by (simp add: scan_instance_def subprocess_run_def)

text \<open>
  Claim C7, on the code. The claim holds when the output of the failed call decodes
  (lemmas \<open>scan_instance_failed_decoded\<close> and \<open>inaccessible_instance\<close>). It fails when
  the diagnostic output does not decode, and \<^verbatim>\<open>wsl\<close> writes its messages in UTF-16LE,
  as the source's \<^verbatim>\<open>get_wsl_instances\<close> knows and decodes by hand: for a call that
  exits with status 1 and whose error stream does not decode, the scanner returns no
  result. On Windows \<^verbatim>\<open>result.stderr\<close> is \<^verbatim>\<open>None\<close> and the error text's
  \<^verbatim>\<open>result.stderr.strip()\<close> raises \<^verbatim>\<open>AttributeError\<close>; on POSIX
  \<^verbatim>\<open>subprocess.run\<close> raises \<^verbatim>\<open>UnicodeDecodeError\<close>.
\<close>

theorem undecodable_failure_raises:
  "scan_instance Windows ''Debian'' \<lparr>exit_status = 1, out_text = Some [], err_text = None\<rparr>
     = Inl AttributeError
   \<and> scan_instance Posix ''Debian'' \<lparr>exit_status = 1, out_text = Some [], err_text = None\<rparr>
     = Inl UnicodeDecodeError"
  by (simp add: scan_instance_def subprocess_run_def)

text \<open>
  Claim C10. When no named-service rule matches a record, the external port the loop
  ends on is not in the set of used ports: it is the first unused port at or above
  \<open>9000 + (port mod 1000)\<close>, so the conflict check that follows finds nothing and the
  conflicts stay as they were. Over a whole run, no claimant of any conflict entry is a
  record assigned by the fallback rule: every claimant got its port from a counter.
\<close>

theorem fallback_never_conflicts:
  "(fallback_rule (port r) (service_type r) \<longrightarrow>
      fst (choose_external_port st r) |\<notin>| used_external_ports st
      \<and> 9000 + port r mod 1000 \<le> fst (choose_external_port st r)
      \<and> (\<forall>q. 9000 + port r mod 1000 \<le> q \<and> q < fst (choose_external_port st r)
             \<longrightarrow> q |\<in>| used_external_ports st)
      \<and> conflicts (assign_port inst st r) = conflicts st)
   \<and> no_fallback_claimant (snd (assign_external_ports infos))"
proof -
  have "fst (choose_external_port st r) |\<notin>| used_external_ports st
      \<and> 9000 + port r mod 1000 \<le> fst (choose_external_port st r)
      \<and> (\<forall>q. 9000 + port r mod 1000 \<le> q \<and> q < fst (choose_external_port st r)
             \<longrightarrow> q |\<in>| used_external_ports st)
      \<and> conflicts (assign_port inst st r) = conflicts st"
    if "fallback_rule (port r) (service_type r)"
  proof -
    from that have e: "fst (choose_external_port st r) =
        next_free (used_external_ports st) (9000 + port r mod 1000)"
      by (simp add: choose_fallback)
    have "fst (choose_external_port st r) |\<notin>| used_external_ports st"
      unfolding e by (rule next_free_unused)
    moreover from this have "conflicts (assign_port inst st r) = conflicts st"
      by (simp add: assign_port_conflicts)
    moreover have "9000 + port r mod 1000 \<le> fst (choose_external_port st r)"
      unfolding e by (rule next_free_ge)
    moreover have "\<forall>q. 9000 + port r mod 1000 \<le> q \<and> q < fst (choose_external_port st r)
        \<longrightarrow> q |\<in>| used_external_ports st"
      unfolding e using next_free_least by blast
    ultimately show ?thesis
      by blast
  qed
  then show ?thesis
    using assign_external_ports_no_fallback_claimant [of infos] by blast
qed

theorem fallback_never_conflicts_witness:
  "fst (choose_external_port (initial_state\<lparr>used_external_ports := {|9500, 9501|}\<rparr>)
          \<lparr>port = 8500, protocol = ''tcp'', address = ''0.0.0.0'', service_type = ''HTTP Alt'',
           raw_line = ''LISTEN 0 128 0.0.0.0:8500 0.0.0.0:*''\<rparr>) = 9502
   \<and> conflicts (assign_port ''A'' (initial_state\<lparr>used_external_ports := {|9500, 9501|}\<rparr>)
          \<lparr>port = 8500, protocol = ''tcp'', address = ''0.0.0.0'', service_type = ''HTTP Alt'',
           raw_line = ''LISTEN 0 128 0.0.0.0:8500 0.0.0.0:*''\<rparr>) = []
   \<and> snd (assign_external_ports
       [\<lparr>instance_id = ''A'', accessible = True,
         ports = [\<lparr>port = 9001, protocol = ''tcp'', address = ''0.0.0.0'',
                   service_type = ''Unknown'', raw_line = ''LISTEN 0 128 0.0.0.0:9001 0.0.0.0:*''\<rparr>,
                  \<lparr>port = 3000, protocol = ''tcp'', address = ''*'',
                   service_type = ''Node.js Dev'', raw_line = ''LISTEN 0 511 *:3000 *:*''\<rparr>],
         services = [], error = None\<rparr>])
     = [(9001, [\<lparr>c_instance = ''A'', c_internal_port = 3000, c_service_type = ''Node.js Dev''\<rparr>])]"
  (is "fst (choose_external_port ?st ?r) = _ \<and> _ \<and> snd (assign_external_ports ?infos) = _")
proof -
  have fb: "fallback_rule (port ?r) (service_type ?r)"
    by (simp add: fallback_rule_def)
  have run: "snd (assign_external_ports ?infos) =
      [(9001, [\<lparr>c_instance = ''A'', c_internal_port = 3000, c_service_type = ''Node.js Dev''\<rparr>])]"
    by (simp add: alloc_eval)
  have pick: "fst (choose_external_port ?st ?r) = 9502"
    by (simp add: alloc_eval)
  from fallback_never_conflicts [of ?r ?st "''A''" ?infos] fb pick run show ?thesis
    by (simp add: initial_state_def)
qed


section \<open>The configuration document\<close>

lemma dict_append_mappings:
  "set (concat (map snd (dict_append d k x))) \<subseteq> insert x (set (concat (map snd d)))"
proof (induction d)
  case Nil
  show ?case by simp
next
  case (Cons p d)
  obtain k' xs where p: "p = (k', xs)"
    by (cases p)
  show ?case
  proof (cases "k' = k")
    case True
    then show ?thesis
      by (auto simp: p)
  next
    case False
    with Cons.IH show ?thesis
      by (auto simp: p)
  qed
qed

lemma dict_set_nil_mappings:
  "set (concat (map snd (dict_set d k []))) \<subseteq> set (concat (map snd d))"
proof (induction d)
  case Nil
  show ?case by simp
next
  case (Cons p d)
  obtain k' xs where p: "p = (k', xs)"
    by (cases p)
  show ?case
  proof (cases "k' = k")
    case True
    then show ?thesis
      by (auto simp: p)
  next
    case False
    with Cons.IH show ?thesis
      by (auto simp: p)
  qed
qed

lemma assign_port_local:
  assumes "\<forall>m \<in> set (concat (map snd (port_assignments st))). m_firewall m = ''local''"
  shows "\<forall>m \<in> set (concat (map snd (port_assignments (assign_port k st r)))). m_firewall m = ''local''"
proof
  fix m
  assume "m \<in> set (concat (map snd (port_assignments (assign_port k st r))))"
  then have "m \<in> insert (new_mapping k r (fst (choose_external_port st r)))
      (set (concat (map snd (port_assignments st))))"
    unfolding assign_port_assignments
    using dict_append_mappings
      [of "port_assignments st" k "new_mapping k r (fst (choose_external_port st r))"]
    by blast
  with assms show "m_firewall m = ''local''"
    by (auto simp: new_mapping_def)
qed

lemma ports_loop_local:
  "\<forall>m \<in> set (concat (map snd (port_assignments st))). m_firewall m = ''local'' \<Longrightarrow>
   \<forall>m \<in> set (concat (map snd (port_assignments (ports_loop k rs st)))). m_firewall m = ''local''"
proof (induction rs arbitrary: st)
  case Nil
  then show ?case by simp
next
  case (Cons r rs)
  from Cons.prems have "\<forall>m \<in> set (concat (map snd (port_assignments (assign_port k st r)))).
      m_firewall m = ''local''"
    by (rule assign_port_local)
  from Cons.IH [OF this] show ?case
    by simp
qed

lemma instances_loop_local:
  "\<forall>m \<in> set (concat (map snd (port_assignments st))). m_firewall m = ''local'' \<Longrightarrow>
   \<forall>m \<in> set (concat (map snd (port_assignments (instances_loop infos st)))). m_firewall m = ''local''"
proof (induction infos arbitrary: st)
  case Nil
  then show ?case by simp
next
  case (Cons info infos)
  show ?case
  proof (cases "accessible info")
    case False
    with Cons show ?thesis by simp
  next
    case True
    let ?st0 = "st\<lparr>port_assignments := dict_set (port_assignments st) (instance_id info) []\<rparr>"
    have "set (concat (map snd (port_assignments ?st0))) \<subseteq> set (concat (map snd (port_assignments st)))"
      using dict_set_nil_mappings [of "port_assignments st" "instance_id info"] by simp
    with Cons.prems
    have "\<forall>m \<in> set (concat (map snd (port_assignments ?st0))). m_firewall m = ''local''"
      by blast
    then have "\<forall>m \<in> set (concat (map snd (port_assignments
        (ports_loop (instance_id info) (ports info) ?st0)))). m_firewall m = ''local''"
      by (rule ports_loop_local)
    from Cons.IH [OF this] True show ?thesis
      by simp
  qed
qed

lemma plan_firewall:
  assumes "(k, ms) \<in> set (fst (assign_external_ports infos))" and "m \<in> set ms"
  shows "m_firewall m = ''local''"
proof -
  let ?pa = "port_assignments (instances_loop infos initial_state)"
  have "\<forall>m \<in> set (concat (map snd (port_assignments initial_state))). m_firewall m = ''local''"
    by (simp add: initial_state_def)
  then have local: "\<forall>m \<in> set (concat (map snd ?pa)). m_firewall m = ''local''"
    by (rule instances_loop_local)
  have "fst (assign_external_ports infos) = ?pa"
    by (simp add: assign_external_ports_def Let_def)
  with assms(1) have "(k, ms) \<in> set ?pa"
    by simp
  with assms(2) have "m \<in> (\<Union>p \<in> set ?pa. set (snd p))"
    by force
  then have "m \<in> set (concat (map snd ?pa))"
    by simp
  with local show ?thesis
    by blast
qed

lemma port_config_of_fields:
  "pc_port (port_config_of m) = m_port m"
  "pc_internal_port (port_config_of m) =
     (if m_internal_port m = m_port m then None else Some (m_internal_port m))"
  "pc_firewall (port_config_of m) = m_firewall m"
  by (auto simp: port_config_of_def Let_def)

text \<open>
  Claim C9. The configuration document has one entry per entry of the plan and, in it,
  one port entry per mapping. The port entry carries the mapping's external port as
  \<open>port\<close>; its \<open>internal_port\<close> is absent exactly when the mapping's internal port equals
  the external port, and is the internal port otherwise; its \<open>firewall\<close> is "local".
\<close>

theorem config_port_entries:
  "map (\<lambda>ic. (ic_name ic, map (\<lambda>pc. (pc_port pc, pc_internal_port pc, pc_firewall pc)) (ic_ports ic)))
     (instances (generated_config infos))
   = map (\<lambda>(inst, ms).
            (inst, map (\<lambda>m. (m_port m,
                              if m_internal_port m = m_port m then None else Some (m_internal_port m),
                              ''local'')) ms))
       (fst (assign_external_ports infos))"
proof -
  have "map (\<lambda>pc. (pc_port pc, pc_internal_port pc, pc_firewall pc)) (map port_config_of ms)
      = map (\<lambda>m. (m_port m,
                   if m_internal_port m = m_port m then None else Some (m_internal_port m),
                   ''local'')) ms"
    if "(k, ms) \<in> set (fst (assign_external_ports infos))" for k ms
    using plan_firewall [OF that] by (simp add: port_config_of_fields)
  then show ?thesis
    unfolding generated_config_def build_config_def
    by (auto simp: split_beta)
qed

theorem config_port_entries_witness:
  "map (\<lambda>ic. (ic_name ic, map (\<lambda>pc. (pc_port pc, pc_internal_port pc, pc_firewall pc)) (ic_ports ic)))
     (instances (generated_config
        [\<lparr>instance_id = ''Ubuntu'', accessible = True,
          ports = [\<lparr>port = 22, protocol = ''tcp'', address = ''0.0.0.0'', service_type = ''SSH'',
                    raw_line = ''LISTEN 0 128 0.0.0.0:22 0.0.0.0:*''\<rparr>,
                   \<lparr>port = 9500, protocol = ''tcp'', address = ''0.0.0.0'', service_type = ''Unknown'',
                    raw_line = ''LISTEN 0 128 0.0.0.0:9500 0.0.0.0:*''\<rparr>],
          services = [], error = None\<rparr>]))
   = [(''Ubuntu'', [(2201, Some 22, ''local''), (9500, None, ''local'')])]"
  (is "map _ (instances (generated_config ?infos)) = _")
proof -
  have "fst (assign_external_ports ?infos) =
      [(''Ubuntu'',
        [\<lparr>m_name = ''Ubuntu SSH'', m_distro = ''Ubuntu'', m_protocol = ''tcp'', m_port = 2201,
          m_internal_port = 22, m_firewall = ''local'', m_listen_address = ''0.0.0.0'',
          m_service_type = ''SSH'', m_original_address = ''0.0.0.0''\<rparr>,
         \<lparr>m_name = ''Ubuntu Unknown'', m_distro = ''Ubuntu'', m_protocol = ''tcp'', m_port = 9500,
          m_internal_port = 9500, m_firewall = ''local'', m_listen_address = ''0.0.0.0'',
          m_service_type = ''Unknown'', m_original_address = ''0.0.0.0''\<rparr>])]"
    by (simp add: alloc_eval)
  with config_port_entries [of ?infos] show ?thesis
    by simp
qed

end
